theory Spec2Isabelle
  imports Main
begin

section \<open>JavaScript values\<close>

text \<open>
  The values that cross the bridge: parameters, response envelopes and their payloads.
  An object is its list of own properties in insertion order. Numbers are the integral
  ones; they are only passed through and tested for truthiness.
\<close>

datatype jsval =
    JUndefined
  | JNull
  | JBool bool
  | JNum int
  | JStr string
  | JArr "jsval list"
  | JObj "(string \<times> jsval) list"

type_synonym jsobj = "(string \<times> jsval) list"

text \<open>The truthiness test of \<^verbatim>\<open>if (v)\<close> and \<^verbatim>\<open>!v\<close>.\<close>

fun truthy :: "jsval \<Rightarrow> bool" where
  "truthy JUndefined = False"
| "truthy JNull = False"
| "truthy (JBool b) = b"
| "truthy (JNum n) = (n \<noteq> 0)"
| "truthy (JStr s) = (s \<noteq> [])"
| "truthy (JArr xs) = True"
| "truthy (JObj fs) = True"

text \<open>Reading a property of an object: \<^verbatim>\<open>undefined\<close> when the object has none of that name.\<close>

definition get_prop :: "jsobj \<Rightarrow> string \<Rightarrow> jsval" where
  "get_prop obj k = (case map_of obj k of None \<Rightarrow> JUndefined | Some v \<Rightarrow> v)"

text \<open>
  A thrown value as the \<^verbatim>\<open>catch\<close> blocks look at it: an instance of \<^verbatim>\<open>Error\<close>
  with its message, or anything else.
\<close>

datatype thrown = ErrorInstance string | NotAnError jsval

section \<open>The bridge entry point\<close>

text \<open>
  \<^verbatim>\<open>window.gpContainer.call(className, methodName, params, successCallback,
  failureCallback, timeout)\<close> is external code. What one invocation of it does with the
  two callbacks it is handed is a \<open>bridge_run\<close>: the callbacks it invokes before it
  returns, the value it throws instead of returning (if it throws), and the callbacks it
  invokes later. The success channel carries a response object, the failure channel any
  value. Nothing is assumed about how many callbacks a run invokes or in which order.
\<close>

datatype delivery = ViaSuccess jsobj | ViaFailure jsval

record bridge_run =
  during :: "delivery list"
  thrown :: "thrown option"
  afterwards :: "delivery list"

type_synonym bridge_call = "string \<Rightarrow> string \<Rightarrow> jsobj \<Rightarrow> int \<Rightarrow> bridge_run"

text \<open>\<^verbatim>\<open>window.gpContainer\<close> is declared optional: absent, or an object with \<^verbatim>\<open>call\<close>.\<close>

record window =
  gpContainer :: "bridge_call option"

section \<open>The error envelopes built by the client\<close>

definition GopayErrorResponse :: "string \<Rightarrow> string \<Rightarrow> string \<Rightarrow> string \<Rightarrow> jsval" where
  "GopayErrorResponse code ty message r =
     JObj [(''success'', JBool False),
           (''error_code'', JStr code),
           (''error_type'', JStr ty),
           (''error_message'', JStr message),
           (''ret'', JStr r)]"

definition sdk_not_loaded :: jsval where
  "sdk_not_loaded =
     GopayErrorResponse ''SDK_NOT_LOADED'' ''JS_BRIDGE_ERROR''
       ''GoPay SDK is not loaded yet'' ''GP_EXCEPTION''"

text \<open>\<^verbatim>\<open>err instanceof Error ? err.message : 'Unknown error occurred'\<close>\<close>

fun errorMessage :: "thrown \<Rightarrow> string" where
  "errorMessage (ErrorInstance m) = m"
| "errorMessage (NotAnError v) = ''Unknown error occurred''"

definition call_exception :: "thrown \<Rightarrow> jsval" where
  "call_exception err =
     GopayErrorResponse ''CALL_EXCEPTION'' ''JS_BRIDGE_ERROR'' (errorMessage err) ''GP_EXCEPTION''"

section \<open>call and callWithCallbacks\<close>

text \<open>
  What an invocation of \<^verbatim>\<open>call\<close> or \<^verbatim>\<open>callWithCallbacks\<close> does, in order: the
  invocations of the bridge primitive it makes (with their arguments), the outcomes it
  reports before it returns, and the outcomes it reports later, when the bridge invokes a
  callback. For \<^verbatim>\<open>call\<close> an outcome is an invocation of the promise's
  \<^verbatim>\<open>resolve\<close> or \<^verbatim>\<open>reject\<close>; for \<^verbatim>\<open>callWithCallbacks\<close> it is an invocation of
  the caller's \<^verbatim>\<open>successCallback\<close> or \<^verbatim>\<open>failureCallback\<close>. Both are required
  arguments, so \<^verbatim>\<open>failureCallback?.(error)\<close> invokes the callback; they are taken to
  return normally.
\<close>

datatype settlement = Resolve jsval | Reject jsval

datatype callback_call = SuccessCallback jsval | FailureCallback jsval

record 'a call_run =
  dispatched :: "(string \<times> string \<times> jsobj \<times> int) list"
  immediate :: "'a list"
  deferred :: "'a list"

text \<open>The success and failure handlers that \<^verbatim>\<open>call\<close> hands to the bridge.\<close>

definition call_onSuccess :: "jsobj \<Rightarrow> settlement" where
  "call_onSuccess response =
     (if truthy (get_prop response ''success'')
      then Resolve (JObj response)
      else Reject (JObj response))"

definition call_onFailure :: "jsval \<Rightarrow> settlement" where
  "call_onFailure err = Reject err"

fun call_handler :: "delivery \<Rightarrow> settlement" where
  "call_handler (ViaSuccess response) = call_onSuccess response"
| "call_handler (ViaFailure err) = call_onFailure err"

text \<open>
  \<^verbatim>\<open>call(className, methodName, params = {}, timeout = defaultTimeout)\<close>; an omitted
  argument is \<open>None\<close>.
\<close>

definition call ::
  "int \<Rightarrow> window \<Rightarrow> string \<Rightarrow> string \<Rightarrow> jsobj option \<Rightarrow> int option \<Rightarrow> settlement call_run"
where
  "call defaultTimeout w className methodName params_arg timeout_arg =
     (let params = (case params_arg of None \<Rightarrow> [] | Some p \<Rightarrow> p);
          timeout = (case timeout_arg of None \<Rightarrow> defaultTimeout | Some t \<Rightarrow> t)
      in case gpContainer w of
           None \<Rightarrow>
             \<lparr>dispatched = [], immediate = [Reject sdk_not_loaded], deferred = []\<rparr>
         | Some gp \<Rightarrow>
             (let run = gp className methodName params timeout
              in \<lparr>dispatched = [(className, methodName, params, timeout)],
                  immediate = map call_handler (during run) @
                    (case thrown run of
                       None \<Rightarrow> []
                     | Some err \<Rightarrow> [Reject (call_exception err)]),
                  deferred = map call_handler (afterwards run)\<rparr>))"

text \<open>
  The promise that \<^verbatim>\<open>call\<close> returns: pending until the first invocation of
  \<^verbatim>\<open>resolve\<close> or \<^verbatim>\<open>reject\<close>, which settles it for good.
\<close>

datatype promise = Pending | Fulfilled jsval | Rejected jsval

fun settle :: "promise \<Rightarrow> settlement \<Rightarrow> promise" where
  "settle Pending (Resolve v) = Fulfilled v"
| "settle Pending (Reject v) = Rejected v"
| "settle p s = p"

definition promise_of :: "settlement call_run \<Rightarrow> promise" where
  "promise_of r = foldl settle Pending (immediate r @ deferred r)"

text \<open>The handlers that \<^verbatim>\<open>callWithCallbacks\<close> hands to the bridge.\<close>

definition callWithCallbacks_onSuccess :: "jsobj \<Rightarrow> callback_call" where
  "callWithCallbacks_onSuccess response =
     (if truthy (get_prop response ''success'')
      then SuccessCallback (JObj response)
      else FailureCallback (JObj response))"

definition callWithCallbacks_onFailure :: "jsval \<Rightarrow> callback_call" where
  "callWithCallbacks_onFailure err = FailureCallback err"

fun callWithCallbacks_handler :: "delivery \<Rightarrow> callback_call" where
  "callWithCallbacks_handler (ViaSuccess response) = callWithCallbacks_onSuccess response"
| "callWithCallbacks_handler (ViaFailure err) = callWithCallbacks_onFailure err"

definition callWithCallbacks ::
  "int \<Rightarrow> window \<Rightarrow> string \<Rightarrow> string \<Rightarrow> jsobj option \<Rightarrow> int option \<Rightarrow> callback_call call_run"
where
  "callWithCallbacks defaultTimeout w className methodName params_arg timeout_arg =
     (let params = (case params_arg of None \<Rightarrow> [] | Some p \<Rightarrow> p);
          timeout = (case timeout_arg of None \<Rightarrow> defaultTimeout | Some t \<Rightarrow> t)
      in case gpContainer w of
           None \<Rightarrow>
             \<lparr>dispatched = [], immediate = [FailureCallback sdk_not_loaded], deferred = []\<rparr>
         | Some gp \<Rightarrow>
             (let run = gp className methodName params timeout
              in \<lparr>dispatched = [(className, methodName, params, timeout)],
                  immediate = map callWithCallbacks_handler (during run) @
                    (case thrown run of
                       None \<Rightarrow> []
                     | Some err \<Rightarrow> [FailureCallback (call_exception err)]),
                  deferred = map callWithCallbacks_handler (afterwards run)\<rparr>))"

text \<open>
  The convenience wrappers with a string argument: each wraps the string under a fixed key
  and passes a fixed class and method name to \<^verbatim>\<open>call\<close>, and no timeout. (The other
  twelve wrappers pass their \<^verbatim>\<open>params\<close> object through and are not modelled.)
\<close>

definition launchDeeplink :: "int \<Rightarrow> window \<Rightarrow> string \<Rightarrow> settlement call_run" where
  "launchDeeplink defaultTimeout w deeplink =
     call defaultTimeout w ''GPNavigator'' ''launchDeeplink''
       (Some [(''deeplink'', JStr deeplink)]) None"

definition launchUri :: "int \<Rightarrow> window \<Rightarrow> string \<Rightarrow> settlement call_run" where
  "launchUri defaultTimeout w uri =
     call defaultTimeout w ''GPNavigator'' ''launchUri'' (Some [(''uri'', JStr uri)]) None"

definition launchPayment :: "int \<Rightarrow> window \<Rightarrow> string \<Rightarrow> settlement call_run" where
  "launchPayment defaultTimeout w deeplink =
     call defaultTimeout w ''GP'' ''launchPayment'' (Some [(''deeplink'', JStr deeplink)]) None"

definition getUserConsent :: "int \<Rightarrow> window \<Rightarrow> string \<Rightarrow> settlement call_run" where
  "getUserConsent defaultTimeout w consentName =
     call defaultTimeout w ''GPConsent'' ''getUserConsent''
       (Some [(''consent_name'', JStr consentName)]) None"

section \<open>The script loader\<close>

definition GOPAY_SDK_URL :: string where
  "GOPAY_SDK_URL = ''https://gwk.gopayapi.com/sdk/stable/gp-container.min.js''"

text \<open>The argument of an error handler: an \<^verbatim>\<open>Event\<close> (by its type) or a string.\<close>

datatype dom_event = Event string | Message string

text \<open>
  The options of \<^verbatim>\<open>useJSAPILoader\<close>; an option left out is \<open>None\<close>. A callback is
  what it does to the state \<open>'s\<close> of the code that supplied it; \<^verbatim>\<open>skipIfExists\<close> reads
  the global object. (\<^verbatim>\<open>async\<close> and \<^verbatim>\<open>defer\<close> carry a suffix: \<open>defer\<close> is a
  keyword here.)
\<close>

record 's JSAPILoaderOptions =
  onLoad :: "('s \<Rightarrow> 's) option"
  onError :: "(dom_event \<Rightarrow> 's \<Rightarrow> 's) option"
  skipIfExists :: "(window \<Rightarrow> bool) option"
  async_opt :: "bool option"
  defer_opt :: "bool option"

text \<open>
  One instance of the hook: its three \<^verbatim>\<open>useState\<close> cells and two \<^verbatim>\<open>useRef\<close> cells.
  \<open>scriptRef\<close> holds the identity of the element the instance created.
\<close>

record JSAPILoader =
  isLoaded :: bool
  isLoading :: bool
  error :: "string option"
  scriptRef :: "nat option"
  loadedRef :: bool

definition initial_loader :: JSAPILoader where
  "initial_loader =
     \<lparr>isLoaded = False, isLoading = False, error = None, scriptRef = None, loadedRef = False\<rparr>"

text \<open>
  A script element: its identity, its \<^verbatim>\<open>src\<close>, \<^verbatim>\<open>async\<close> and \<^verbatim>\<open>defer\<close>, its
  other attributes, and the handlers the loader installs on it. A handler is a closure of
  the effect; it is kept as what it closes over, the hook instance and the options of that
  run of the effect.
\<close>

record 's script =
  sid :: nat
  src :: string
  async_attr :: bool
  defer_attr :: bool
  attributes :: "(string \<times> string) list"
  onload :: "(nat \<times> 's JSAPILoaderOptions) option"
  onerror :: "(nat \<times> 's JSAPILoaderOptions) option"
  load_listeners :: "(nat \<times> 's JSAPILoaderOptions) list"

text \<open>
  The page: the global object, the script elements of the document head and of the rest of
  the document (in document order), the script elements that were removed from the document
  (the handlers on them and the \<^verbatim>\<open>scriptRef\<close> that points to them keep them alive, and
  an event can still fire on them), the next unused element identity, the hook instances,
  what was written to \<^verbatim>\<open>console.error\<close>, and for every hook instance the state \<open>'s\<close>
  of the code that mounted it, which the callbacks that code supplied act on.
\<close>

record 's world =
  window_obj :: window
  doc_head :: "'s script list"
  doc_rest :: "'s script list"
  detached :: "'s script list"
  fresh :: nat
  loaders :: "nat \<Rightarrow> JSAPILoader"
  console_error :: "(string \<times> dom_event) list"
  app :: "nat \<Rightarrow> 's"

definition scripts :: "'s world \<Rightarrow> 's script list" where
  "scripts w = doc_head w @ doc_rest w"

definition elements :: "'s world \<Rightarrow> 's script list" where
  "elements w = scripts w @ detached w"

text \<open>\<^verbatim>\<open>document.querySelector(`script[src="${url}"]`)\<close>: the first match in document order.\<close>

definition querySelector_script :: "string \<Rightarrow> 's world \<Rightarrow> 's script option" where
  "querySelector_script url w = find (\<lambda>e. src e = url) (scripts w)"

definition hasAttribute :: "'s script \<Rightarrow> string \<Rightarrow> bool" where
  "hasAttribute e name = (map_of (attributes e) name \<noteq> None)"

definition setAttribute :: "string \<Rightarrow> string \<Rightarrow> 's script \<Rightarrow> 's script" where
  "setAttribute name v e =
     e\<lparr>attributes := (if hasAttribute e name
                       then map (\<lambda>(k, x). if k = name then (k, v) else (k, x)) (attributes e)
                       else attributes e @ [(name, v)])\<rparr>"

definition update_script :: "nat \<Rightarrow> ('s script \<Rightarrow> 's script) \<Rightarrow> 's world \<Rightarrow> 's world" where
  "update_script s f w =
     w\<lparr>doc_head := map (\<lambda>e. if sid e = s then f e else e) (doc_head w),
       doc_rest := map (\<lambda>e. if sid e = s then f e else e) (doc_rest w),
       detached := map (\<lambda>e. if sid e = s then f e else e) (detached w)\<rparr>"

definition update_loader :: "nat \<Rightarrow> (JSAPILoader \<Rightarrow> JSAPILoader) \<Rightarrow> 's world \<Rightarrow> 's world" where
  "update_loader i f w = w\<lparr>loaders := (loaders w)(i := f (loaders w i))\<rparr>"

text \<open>\<^verbatim>\<open>onLoad?.()\<close> and \<^verbatim>\<open>onError?.(err)\<close>, in a handler of instance \<open>i\<close>\<close>

definition invoke_onLoad :: "nat \<Rightarrow> 's JSAPILoaderOptions \<Rightarrow> 's world \<Rightarrow> 's world" where
  "invoke_onLoad i options w =
     (case onLoad options of
        None \<Rightarrow> w
      | Some f \<Rightarrow> w\<lparr>app := (app w)(i := f (app w i))\<rparr>)"

definition invoke_onError ::
  "nat \<Rightarrow> 's JSAPILoaderOptions \<Rightarrow> dom_event \<Rightarrow> 's world \<Rightarrow> 's world" where
  "invoke_onError i options err w =
     (case onError options of
        None \<Rightarrow> w
      | Some f \<Rightarrow> w\<lparr>app := (app w)(i := f err (app w i))\<rparr>)"

text \<open>\<^verbatim>\<open>loadedRef.current = true; setIsLoaded(true); onLoad?.()\<close>\<close>

definition mark_loaded :: "nat \<Rightarrow> 's JSAPILoaderOptions \<Rightarrow> 's world \<Rightarrow> 's world" where
  "mark_loaded i options w =
     invoke_onLoad i options
       (update_loader i (\<lambda>l. l\<lparr>isLoaded := True\<rparr>)
         (update_loader i (\<lambda>l. l\<lparr>loadedRef := True\<rparr>) w))"

text \<open>
  The cleanup function the effect returns after it created an element: the element that
  \<^verbatim>\<open>scriptRef\<close> points to is removed from the document if it is in it.
\<close>

definition cleanup :: "nat \<Rightarrow> 's world \<Rightarrow> 's world" where
  "cleanup i w =
     (case scriptRef (loaders w i) of
        None \<Rightarrow> w
      | Some s \<Rightarrow>
          w\<lparr>doc_head := filter (\<lambda>e. sid e \<noteq> s) (doc_head w),
            doc_rest := filter (\<lambda>e. sid e \<noteq> s) (doc_rest w),
            detached := detached w @ filter (\<lambda>e. sid e = s) (doc_head w @ doc_rest w)\<rparr>)"

text \<open>
  The body of the effect of \<^verbatim>\<open>useJSAPILoader\<close> for hook instance \<open>i\<close>: the world after
  it, and the cleanup function it returns (\<open>None\<close> for a plain \<^verbatim>\<open>return\<close>).
\<close>

definition useJSAPILoader_effect ::
  "nat \<Rightarrow> 's JSAPILoaderOptions \<Rightarrow> 's world \<Rightarrow> 's world \<times> ('s world \<Rightarrow> 's world) option"
where
  "useJSAPILoader_effect i options w =
     (if loadedRef (loaders w i) then (w, None)
      else if (case skipIfExists options of None \<Rightarrow> False | Some p \<Rightarrow> p (window_obj w))
      then (mark_loaded i options w, None)
      else
        (case querySelector_script GOPAY_SDK_URL w of
           Some existingScript \<Rightarrow>
             if hasAttribute existingScript ''data-loaded''
             then (mark_loaded i options w, None)
             else (update_script (sid existingScript)
                     (\<lambda>e. e\<lparr>load_listeners := load_listeners e @ [(i, options)]\<rparr>) w, None)
         | None \<Rightarrow>
             (let w1 = update_loader i (\<lambda>l. l\<lparr>isLoading := True\<rparr>) w;
                  script = \<lparr>sid = fresh w1, src = GOPAY_SDK_URL,
                            async_attr = (case async_opt options of None \<Rightarrow> True | Some b \<Rightarrow> b),
                            defer_attr = (case defer_opt options of None \<Rightarrow> False | Some b \<Rightarrow> b),
                            attributes = [],
                            onload = Some (i, options), onerror = Some (i, options),
                            load_listeners = []\<rparr>;
                  w2 = update_loader i (\<lambda>l. l\<lparr>scriptRef := Some (sid script)\<rparr>)
                         (w1\<lparr>fresh := Suc (fresh w1)\<rparr>)
              in (w2\<lparr>doc_head := doc_head w2 @ [script]\<rparr>, Some (cleanup i)))))"

text \<open>The \<^verbatim>\<open>onload\<close> and \<^verbatim>\<open>onerror\<close> handlers of a created element \<open>s\<close>.\<close>

fun script_onload :: "nat \<Rightarrow> nat \<times> 's JSAPILoaderOptions \<Rightarrow> 's world \<Rightarrow> 's world" where
  "script_onload s (i, options) w =
     invoke_onLoad i options
       (update_loader i (\<lambda>l. l\<lparr>isLoading := False\<rparr>)
         (update_loader i (\<lambda>l. l\<lparr>isLoaded := True\<rparr>)
           (update_loader i (\<lambda>l. l\<lparr>loadedRef := True\<rparr>)
             (update_script s (setAttribute ''data-loaded'' ''true'') w))))"

fun script_onerror :: "nat \<times> 's JSAPILoaderOptions \<Rightarrow> dom_event \<Rightarrow> 's world \<Rightarrow> 's world" where
  "script_onerror (i, options) err w =
     (let errorMsg = ''Failed to load script: '' @ GOPAY_SDK_URL;
          w1 = update_loader i (\<lambda>l. l\<lparr>error := Some errorMsg\<rparr>) w;
          w2 = update_loader i (\<lambda>l. l\<lparr>isLoading := False\<rparr>) w1;
          w3 = invoke_onError i options err w2
      in w3\<lparr>console_error := console_error w3 @ [(errorMsg, err)]\<rparr>)"

text \<open>The listener added to an element that was found in the document.\<close>

fun load_listener :: "nat \<times> 's JSAPILoaderOptions \<Rightarrow> 's world \<Rightarrow> 's world" where
  "load_listener (i, options) w = mark_loaded i options w"

text \<open>
  A \<^verbatim>\<open>load\<close> or \<^verbatim>\<open>error\<close> event on the element \<open>s\<close>, in the document or removed
  from it: the \<^verbatim>\<open>onload\<close> handler was installed before any listener was added, so it
  runs first, then the listeners in the order they were added.
\<close>

definition dispatch_load :: "nat \<Rightarrow> 's world \<Rightarrow> 's world" where
  "dispatch_load s w =
     (case find (\<lambda>e. sid e = s) (elements w) of
        None \<Rightarrow> w
      | Some e \<Rightarrow>
          fold load_listener (load_listeners e)
            (case onload e of None \<Rightarrow> w | Some h \<Rightarrow> script_onload s h w))"

definition dispatch_error :: "nat \<Rightarrow> dom_event \<Rightarrow> 's world \<Rightarrow> 's world" where
  "dispatch_error s err w =
     (case find (\<lambda>e. sid e = s) (elements w) of
        None \<Rightarrow> w
      | Some e \<Rightarrow> (case onerror e of None \<Rightarrow> w | Some h \<Rightarrow> script_onerror h err w))"

section \<open>The bridge client\<close>

text \<open>
  The options of \<^verbatim>\<open>useMiniapp\<close> (its \<^verbatim>\<open>onError\<close> carries a suffix, the loader's
  option has the name), and the state of one instance: the \<^verbatim>\<open>isReady\<close> cell, the
  \<^verbatim>\<open>readyRef\<close> cell and the state \<open>'c\<close> of the caller, which the caller's callbacks
  act on.
\<close>

record 'c GopayMiniappOptions =
  onReady :: "('c \<Rightarrow> 'c) option"
  onError_miniapp :: "(dom_event \<Rightarrow> 'c \<Rightarrow> 'c) option"
  defaultTimeout :: "int option"

record 'c miniapp =
  isReady :: bool
  readyRef :: bool
  caller :: 'c

text \<open>The \<^verbatim>\<open>onLoad\<close> and \<^verbatim>\<open>onError\<close> callbacks that \<^verbatim>\<open>useMiniapp\<close> gives the loader.\<close>

definition miniapp_onLoad :: "'c GopayMiniappOptions \<Rightarrow> 'c miniapp \<Rightarrow> 'c miniapp" where
  "miniapp_onLoad options m =
     (if \<not> readyRef m
      then (let m1 = m\<lparr>readyRef := True\<rparr>;
                m2 = m1\<lparr>isReady := True\<rparr>
            in case onReady options of None \<Rightarrow> m2 | Some f \<Rightarrow> m2\<lparr>caller := f (caller m2)\<rparr>)
      else m)"

definition miniapp_onError ::
  "'c GopayMiniappOptions \<Rightarrow> dom_event \<Rightarrow> 'c miniapp \<Rightarrow> 'c miniapp" where
  "miniapp_onError options err m =
     (case onError_miniapp options of None \<Rightarrow> m | Some f \<Rightarrow> m\<lparr>caller := f err (caller m)\<rparr>)"

definition miniapp_loader_options ::
  "'c GopayMiniappOptions \<Rightarrow> 'c miniapp JSAPILoaderOptions" where
  "miniapp_loader_options options =
     \<lparr>onLoad = Some (miniapp_onLoad options),
      onError = Some (miniapp_onError options),
      skipIfExists = Some (\<lambda>win. gpContainer win \<noteq> None),
      async_opt = None,
      defer_opt = None\<rparr>"

text \<open>
  What \<^verbatim>\<open>useMiniapp\<close> returns on a render of instance \<open>i\<close>: the three state values and
  the call functions (of the wrappers, the four modelled above), which read the global
  object when they are invoked.
\<close>

record GoPayMiniappResult =
  result_isReady :: bool
  result_isLoading :: bool
  result_error :: "string option"
  result_call ::
    "window \<Rightarrow> string \<Rightarrow> string \<Rightarrow> jsobj option \<Rightarrow> int option \<Rightarrow> settlement call_run"
  result_callWithCallbacks ::
    "window \<Rightarrow> string \<Rightarrow> string \<Rightarrow> jsobj option \<Rightarrow> int option \<Rightarrow> callback_call call_run"
  result_launchDeeplink :: "window \<Rightarrow> string \<Rightarrow> settlement call_run"
  result_launchUri :: "window \<Rightarrow> string \<Rightarrow> settlement call_run"
  result_launchPayment :: "window \<Rightarrow> string \<Rightarrow> settlement call_run"
  result_getUserConsent :: "window \<Rightarrow> string \<Rightarrow> settlement call_run"

definition useMiniapp ::
  "nat \<Rightarrow> 'c GopayMiniappOptions \<Rightarrow> 'c miniapp world \<Rightarrow> GoPayMiniappResult" where
  "useMiniapp i options w =
     (let dt = (case defaultTimeout options of None \<Rightarrow> 300000 | Some t \<Rightarrow> t)
      in \<lparr>result_isReady = isReady (app w i),
          result_isLoading = isLoading (loaders w i),
          result_error = error (loaders w i),
          result_call = (\<lambda>win. call dt win),
          result_callWithCallbacks = (\<lambda>win. callWithCallbacks dt win),
          result_launchDeeplink = (\<lambda>win. launchDeeplink dt win),
          result_launchUri = (\<lambda>win. launchUri dt win),
          result_launchPayment = (\<lambda>win. launchPayment dt win),
          result_getUserConsent = (\<lambda>win. getUserConsent dt win)\<rparr>)"

section \<open>The life of a page\<close>

text \<open>
  What happens on a page on which hook instances are mounted, one event at a time. React
  runs the effect of an instance on mount, and again after a render in which one of the
  effect's dependencies changed; before it runs the effect again, and when the instance
  unmounts, it calls the cleanup function that the previous run returned. A script element
  fires \<^verbatim>\<open>load\<close> or \<^verbatim>\<open>error\<close>. The global object changes (the SDK script defines
  \<^verbatim>\<open>window.gpContainer\<close>). A page is the world together with, for every instance, the
  cleanup function of the last run of its effect.
\<close>

datatype 's page_event =
    EffectRuns nat "'s JSAPILoaderOptions"
  | CleanupRuns nat
  | LoadFires nat
  | ErrorFires nat dom_event
  | WindowBecomes window

type_synonym 's page = "'s world \<times> (nat \<Rightarrow> ('s world \<Rightarrow> 's world) option)"

fun page_step :: "'s page \<Rightarrow> 's page_event \<Rightarrow> 's page" where
  "page_step (w, c) (EffectRuns i options) =
     (case useJSAPILoader_effect i options (case c i of None \<Rightarrow> w | Some f \<Rightarrow> f w) of
        (w', r) \<Rightarrow> (w', c(i := r)))"
| "page_step (w, c) (CleanupRuns i) = ((case c i of None \<Rightarrow> w | Some f \<Rightarrow> f w), c(i := None))"
| "page_step (w, c) (LoadFires s) = (dispatch_load s w, c)"
| "page_step (w, c) (ErrorFires s err) = (dispatch_error s err w, c)"
| "page_step (w, c) (WindowBecomes win) = (w\<lparr>window_obj := win\<rparr>, c)"

definition page_life :: "'s page \<Rightarrow> 's page_event list \<Rightarrow> 's page" where
  "page_life p events = foldl page_step p events"

text \<open>
  Where a life starts: a page with no script element and no hook instance that has run,
  and the cells of \<^verbatim>\<open>useMiniapp\<close> as \<^verbatim>\<open>useState(false)\<close> and \<^verbatim>\<open>useRef(false)\<close>
  make them.
\<close>

definition empty_page :: "window \<Rightarrow> 's \<Rightarrow> 's world" where
  "empty_page win a =
     \<lparr>window_obj = win, doc_head = [], doc_rest = [], detached = [], fresh = 0,
      loaders = (\<lambda>i. initial_loader), console_error = [], app = (\<lambda>i. a)\<rparr>"

text \<open>
  A script element for the SDK URL that other code put into the document, as the test
  \<^verbatim>\<open>should reuse existing script in DOM\<close> builds one: no handler of the loader is on it.
\<close>

definition existingScript :: "nat \<Rightarrow> (string \<times> string) list \<Rightarrow> 's script" where
  "existingScript s attrs =
     \<lparr>sid = s, src = GOPAY_SDK_URL, async_attr = False, defer_attr = False,
      attributes = attrs, onload = None, onerror = None, load_listeners = []\<rparr>"

definition initial_miniapp :: "'c \<Rightarrow> 'c miniapp" where
  "initial_miniapp c = \<lparr>isReady = False, readyRef = False, caller = c\<rparr>"

text \<open>
  Callbacks as a test passes them: each records its invocation in the caller's state, a
  list.
\<close>

definition recording_callbacks :: "string list GopayMiniappOptions" where
  "recording_callbacks =
     \<lparr>onReady = Some (\<lambda>l. l @ [''ready'']),
      onError_miniapp = Some (\<lambda>err l. l @ [''error'']),
      defaultTimeout = None\<rparr>"

text \<open>
  What the caller's callbacks do to the caller's state: \<^verbatim>\<open>onReady?.()\<close> once, and
  \<^verbatim>\<open>onError?.(err)\<close> for each of a list of errors in turn.
\<close>

definition onReady_applied :: "'c GopayMiniappOptions \<Rightarrow> 'c \<Rightarrow> 'c" where
  "onReady_applied options c = (case onReady options of None \<Rightarrow> c | Some f \<Rightarrow> f c)"

definition onError_applied :: "'c GopayMiniappOptions \<Rightarrow> dom_event list \<Rightarrow> 'c \<Rightarrow> 'c" where
  "onError_applied options errs c =
     fold (\<lambda>err x. case onError_miniapp options of None \<Rightarrow> x | Some g \<Rightarrow> g err x) errs c"

section \<open>What holds throughout the life of a mounted bridge client\<close>

text \<open>
  Three facts that every event on the page keeps, for a \<^verbatim>\<open>useMiniapp\<close> instance \<open>i\<close>
  with options \<open>options\<close>, whatever other instances are on the page. Every handler of
  instance \<open>i\<close> on a script element carries the options that \<^verbatim>\<open>useMiniapp\<close> passes. The
  readiness flag, its guard \<^verbatim>\<open>readyRef\<close> and the loader's loaded flag and guard agree,
  and the caller's state is its initial state \<open>c0\<close> after some invocations of
  \<^verbatim>\<open>onError\<close>, then one of \<^verbatim>\<open>onReady\<close> exactly if the flag is set, then some more of
  \<^verbatim>\<open>onError\<close>. Every cleanup function React holds is the loader's.
\<close>

definition client_handler ::
  "nat \<Rightarrow> 'c GopayMiniappOptions \<Rightarrow> nat \<times> 'c miniapp JSAPILoaderOptions \<Rightarrow> bool" where
  "client_handler i options h = (fst h = i \<longrightarrow> snd h = miniapp_loader_options options)"

definition client_element :: "nat \<Rightarrow> 'c GopayMiniappOptions \<Rightarrow> 'c miniapp script \<Rightarrow> bool" where
  "client_element i options e =
     ((\<forall>h. onload e = Some h \<longrightarrow> client_handler i options h) \<and>
      (\<forall>h. onerror e = Some h \<longrightarrow> client_handler i options h) \<and>
      (\<forall>h \<in> set (load_listeners e). client_handler i options h))"

definition handlers_inv :: "nat \<Rightarrow> 'c GopayMiniappOptions \<Rightarrow> 'c miniapp world \<Rightarrow> bool" where
  "handlers_inv i options w = (\<forall>e \<in> set (elements w). client_element i options e)"

definition ready_inv :: "nat \<Rightarrow> 'c GopayMiniappOptions \<Rightarrow> 'c \<Rightarrow> 'c miniapp world \<Rightarrow> bool" where
  "ready_inv i options c0 w =
     (readyRef (app w i) = isReady (app w i) \<and>
      isLoaded (loaders w i) = isReady (app w i) \<and>
      loadedRef (loaders w i) = isReady (app w i) \<and>
      (\<exists>earlier later.
         caller (app w i) =
           (if isReady (app w i)
            then onError_applied options later
                   (onReady_applied options (onError_applied options earlier c0))
            else onError_applied options earlier c0)))"

definition cleanups_inv :: "(nat \<Rightarrow> ('s world \<Rightarrow> 's world) option) \<Rightarrow> bool" where
  "cleanups_inv c = (\<forall>j. c j = None \<or> c j = Some (cleanup j))"

definition miniapp_inv :: "nat \<Rightarrow> 'c GopayMiniappOptions \<Rightarrow> 'c \<Rightarrow> 'c miniapp page \<Rightarrow> bool" where
  "miniapp_inv i options c0 p =
     (handlers_inv i options (fst p) \<and> ready_inv i options c0 (fst p) \<and> cleanups_inv (snd p))"

section \<open>Properties of call and callWithCallbacks\<close>

lemma settle_settled: "p \<noteq> Pending \<Longrightarrow> foldl settle p xs = p"
proof (induction xs)
  case Nil
  show ?case by simp
next
  case (Cons x xs)
  from Cons.prems have "settle p x = p" by (cases p) auto
  with Cons show ?case by simp
qed

lemma promise_of_first:
  assumes "immediate r @ deferred r = s # rest"
  shows "promise_of r = settle Pending s"
proof -
  from assms have "promise_of r = foldl settle (settle Pending s) rest"
    by (simp add: promise_of_def)
  moreover have "settle Pending s \<noteq> Pending" by (cases s) auto
  ultimately show ?thesis by (simp add: settle_settled)
qed

lemma call_present:
  "gpContainer w = Some gp \<Longrightarrow>
   call dt w c m p t =
     (let run = gp c m (case p of None \<Rightarrow> [] | Some x \<Rightarrow> x) (case t of None \<Rightarrow> dt | Some x \<Rightarrow> x)
      in \<lparr>dispatched = [(c, m, case p of None \<Rightarrow> [] | Some x \<Rightarrow> x, case t of None \<Rightarrow> dt | Some x \<Rightarrow> x)],
          immediate = map call_handler (during run) @
            (case thrown run of None \<Rightarrow> [] | Some err \<Rightarrow> [Reject (call_exception err)]),
          deferred = map call_handler (afterwards run)\<rparr>)"
  by (simp add: call_def Let_def)

lemma callWithCallbacks_present:
  "gpContainer w = Some gp \<Longrightarrow>
   callWithCallbacks dt w c m p t =
     (let run = gp c m (case p of None \<Rightarrow> [] | Some x \<Rightarrow> x) (case t of None \<Rightarrow> dt | Some x \<Rightarrow> x)
      in \<lparr>dispatched = [(c, m, case p of None \<Rightarrow> [] | Some x \<Rightarrow> x, case t of None \<Rightarrow> dt | Some x \<Rightarrow> x)],
          immediate = map callWithCallbacks_handler (during run) @
            (case thrown run of None \<Rightarrow> [] | Some err \<Rightarrow> [FailureCallback (call_exception err)]),
          deferred = map callWithCallbacks_handler (afterwards run)\<rparr>)"
  by (simp add: callWithCallbacks_def Let_def)

lemma call_handler_Resolve:
  "call_handler d = Resolve v \<Longrightarrow>
   \<exists>r. d = ViaSuccess r \<and> v = JObj r \<and> truthy (get_prop r ''success'')"
  by (cases d) (auto simp: call_onSuccess_def call_onFailure_def split: if_splits)

lemma callWithCallbacks_handler_Success:
  "callWithCallbacks_handler d = SuccessCallback v \<Longrightarrow>
   \<exists>r. d = ViaSuccess r \<and> v = JObj r \<and> truthy (get_prop r ''success'')"
  by (cases d)
    (auto simp: callWithCallbacks_onSuccess_def callWithCallbacks_onFailure_def split: if_splits)

text \<open>
  C1. While \<^verbatim>\<open>window.gpContainer\<close> is absent, every invocation of \<^verbatim>\<open>call\<close> and of
  \<^verbatim>\<open>callWithCallbacks\<close> fails before it returns, with exactly the
  \<^verbatim>\<open>SDK_NOT_LOADED\<close> envelope: \<^verbatim>\<open>call\<close> invokes \<^verbatim>\<open>reject\<close> with it and the promise
  is rejected with it, \<^verbatim>\<open>callWithCallbacks\<close> invokes the failure callback with it.
  Nothing else is reported, then or later, and the bridge primitive is not invoked.
\<close>

theorem call_without_bridge:
  assumes "gpContainer w = None"
  shows "call dt w className methodName params timeout =
           \<lparr>dispatched = [],
            immediate = [Reject (JObj [(''success'', JBool False),
              (''error_code'', JStr ''SDK_NOT_LOADED''),
              (''error_type'', JStr ''JS_BRIDGE_ERROR''),
              (''error_message'', JStr ''GoPay SDK is not loaded yet''),
              (''ret'', JStr ''GP_EXCEPTION'')])],
            deferred = []\<rparr>
       \<and> promise_of (call dt w className methodName params timeout) =
           Rejected (JObj [(''success'', JBool False),
              (''error_code'', JStr ''SDK_NOT_LOADED''),
              (''error_type'', JStr ''JS_BRIDGE_ERROR''),
              (''error_message'', JStr ''GoPay SDK is not loaded yet''),
              (''ret'', JStr ''GP_EXCEPTION'')])
       \<and> callWithCallbacks dt w className methodName params timeout =
           \<lparr>dispatched = [],
            immediate = [FailureCallback (JObj [(''success'', JBool False),
              (''error_code'', JStr ''SDK_NOT_LOADED''),
              (''error_type'', JStr ''JS_BRIDGE_ERROR''),
              (''error_message'', JStr ''GoPay SDK is not loaded yet''),
              (''ret'', JStr ''GP_EXCEPTION'')])],
            deferred = []\<rparr>"
  using assms
  by (simp add: call_def callWithCallbacks_def promise_of_def sdk_not_loaded_def
      GopayErrorResponse_def Let_def)

theorem call_without_bridge_witness:
  "gpContainer \<lparr>gpContainer = None\<rparr> = None
   \<and> dispatched (call 300000 \<lparr>gpContainer = None\<rparr> ''GPSystem'' ''getLocale'' None None) = []
   \<and> promise_of (call 300000 \<lparr>gpContainer = None\<rparr> ''GPSystem'' ''getLocale'' None None) =
       Rejected (JObj [(''success'', JBool False),
              (''error_code'', JStr ''SDK_NOT_LOADED''),
              (''error_type'', JStr ''JS_BRIDGE_ERROR''),
              (''error_message'', JStr ''GoPay SDK is not loaded yet''),
              (''ret'', JStr ''GP_EXCEPTION'')])
   \<and> immediate (callWithCallbacks 300000 \<lparr>gpContainer = None\<rparr>
         ''GPSystem'' ''getLocale'' None None) =
       [FailureCallback (JObj [(''success'', JBool False),
              (''error_code'', JStr ''SDK_NOT_LOADED''),
              (''error_type'', JStr ''JS_BRIDGE_ERROR''),
              (''error_message'', JStr ''GoPay SDK is not loaded yet''),
              (''ret'', JStr ''GP_EXCEPTION'')])]"
proof -
  have absent: "gpContainer \<lparr>gpContainer = None\<rparr> = None" by simp
  from call_without_bridge [OF absent, of 300000 "''GPSystem''" "''getLocale''" None None] absent
  show ?thesis by (simp add: promise_of_def)
qed

text \<open>
  C2. With the bridge present, let \<open>run\<close> be what the bridge does on this invocation. Every
  response the bridge delivers on the success channel with \<^verbatim>\<open>success: false\<close>, and every
  value it delivers on the failure channel, is reported as a failure with that very value:
  \<^verbatim>\<open>call\<close> invokes \<^verbatim>\<open>reject\<close> with it and \<^verbatim>\<open>callWithCallbacks\<close> invokes the failure
  callback with it, before returning if the delivery is synchronous and later otherwise.
  A response with \<^verbatim>\<open>success: false\<close> is never passed to \<^verbatim>\<open>resolve\<close> or to the success
  callback. When the delivery is the first thing the bridge does with its callbacks (and it
  has not thrown before), the promise ends rejected with the value.
\<close>

theorem error_envelope_rejected:
  assumes bridge: "gpContainer w = Some gp"
    and run: "gp c m (case p of None \<Rightarrow> [] | Some x \<Rightarrow> x)
                (case t of None \<Rightarrow> dt | Some x \<Rightarrow> x) = run"
    and failed: "get_prop response ''success'' = JBool False"
  shows "(ViaSuccess response \<in> set (during run) \<longrightarrow>
            Reject (JObj response) \<in> set (immediate (call dt w c m p t)) \<and>
            FailureCallback (JObj response) \<in> set (immediate (callWithCallbacks dt w c m p t)))
       \<and> (ViaSuccess response \<in> set (afterwards run) \<longrightarrow>
            Reject (JObj response) \<in> set (deferred (call dt w c m p t)) \<and>
            FailureCallback (JObj response) \<in> set (deferred (callWithCallbacks dt w c m p t)))
       \<and> (ViaFailure failure \<in> set (during run) \<longrightarrow>
            Reject failure \<in> set (immediate (call dt w c m p t)) \<and>
            FailureCallback failure \<in> set (immediate (callWithCallbacks dt w c m p t)))
       \<and> (ViaFailure failure \<in> set (afterwards run) \<longrightarrow>
            Reject failure \<in> set (deferred (call dt w c m p t)) \<and>
            FailureCallback failure \<in> set (deferred (callWithCallbacks dt w c m p t)))
       \<and> Resolve (JObj response) \<notin>
            set (immediate (call dt w c m p t) @ deferred (call dt w c m p t))
       \<and> SuccessCallback (JObj response) \<notin>
            set (immediate (callWithCallbacks dt w c m p t) @
                 deferred (callWithCallbacks dt w c m p t))
       \<and> (during run = ViaSuccess response # ds \<or>
            during run = [] \<and> thrown run = None \<and> afterwards run = ViaSuccess response # ds \<longrightarrow>
            promise_of (call dt w c m p t) = Rejected (JObj response))
       \<and> (during run = ViaFailure failure # ds \<or>
            during run = [] \<and> thrown run = None \<and> afterwards run = ViaFailure failure # ds \<longrightarrow>
            promise_of (call dt w c m p t) = Rejected failure)"
proof -
  let ?call = "call dt w c m p t" and ?cwc = "callWithCallbacks dt w c m p t"
  have ci: "immediate ?call = map call_handler (during run) @
      (case thrown run of None \<Rightarrow> [] | Some err \<Rightarrow> [Reject (call_exception err)])"
    and cd: "deferred ?call = map call_handler (afterwards run)"
    using run by (simp_all add: call_present [OF bridge] Let_def)
  have wi: "immediate ?cwc = map callWithCallbacks_handler (during run) @
      (case thrown run of None \<Rightarrow> [] | Some err \<Rightarrow> [FailureCallback (call_exception err)])"
    and wd: "deferred ?cwc = map callWithCallbacks_handler (afterwards run)"
    using run by (simp_all add: callWithCallbacks_present [OF bridge] Let_def)
  have hs: "call_handler (ViaSuccess response) = Reject (JObj response)"
    and ws: "callWithCallbacks_handler (ViaSuccess response) = FailureCallback (JObj response)"
    using failed by (simp_all add: call_onSuccess_def callWithCallbacks_onSuccess_def)
  have hf: "call_handler (ViaFailure failure) = Reject failure"
    and wf: "callWithCallbacks_handler (ViaFailure failure) = FailureCallback failure"
    by (simp_all add: call_onFailure_def callWithCallbacks_onFailure_def)
  have c1: "ViaSuccess response \<in> set (during run) \<longrightarrow>
      Reject (JObj response) \<in> set (immediate ?call) \<and>
      FailureCallback (JObj response) \<in> set (immediate ?cwc)"
    using hs ws by (auto simp: ci wi image_iff intro: bexI [of _ "ViaSuccess response"])
  have c2: "ViaSuccess response \<in> set (afterwards run) \<longrightarrow>
      Reject (JObj response) \<in> set (deferred ?call) \<and>
      FailureCallback (JObj response) \<in> set (deferred ?cwc)"
    using hs ws by (auto simp: cd wd image_iff intro: bexI [of _ "ViaSuccess response"])
  have c3: "ViaFailure failure \<in> set (during run) \<longrightarrow>
      Reject failure \<in> set (immediate ?call) \<and> FailureCallback failure \<in> set (immediate ?cwc)"
    using hf wf by (auto simp: ci wi image_iff intro: bexI [of _ "ViaFailure failure"])
  have c4: "ViaFailure failure \<in> set (afterwards run) \<longrightarrow>
      Reject failure \<in> set (deferred ?call) \<and> FailureCallback failure \<in> set (deferred ?cwc)"
    using hf wf by (auto simp: cd wd image_iff intro: bexI [of _ "ViaFailure failure"])
  have c5: "Resolve (JObj response) \<notin> set (immediate ?call @ deferred ?call)"
  proof
    assume "Resolve (JObj response) \<in> set (immediate ?call @ deferred ?call)"
    then obtain d where "call_handler d = Resolve (JObj response)"
      by (auto simp: ci cd split: option.splits)
    from call_handler_Resolve [OF this] failed show False by auto
  qed
  have c6: "SuccessCallback (JObj response) \<notin> set (immediate ?cwc @ deferred ?cwc)"
  proof
    assume "SuccessCallback (JObj response) \<in> set (immediate ?cwc @ deferred ?cwc)"
    then obtain d where "callWithCallbacks_handler d = SuccessCallback (JObj response)"
      by (auto simp: wi wd split: option.splits)
    from callWithCallbacks_handler_Success [OF this] failed show False by auto
  qed
  have first: "during run = d # ds \<or> during run = [] \<and> thrown run = None \<and> afterwards run = d # ds
      \<Longrightarrow> promise_of ?call = settle Pending (call_handler d)" for d
  proof -
    assume "during run = d # ds \<or> during run = [] \<and> thrown run = None \<and> afterwards run = d # ds"
    then have "\<exists>rest. immediate ?call @ deferred ?call = call_handler d # rest"
      by (auto simp: ci cd)
    then show ?thesis by (auto dest: promise_of_first)
  qed
  have c7: "during run = ViaSuccess response # ds \<or>
      during run = [] \<and> thrown run = None \<and> afterwards run = ViaSuccess response # ds \<longrightarrow>
      promise_of ?call = Rejected (JObj response)"
    using first [of "ViaSuccess response"] hs by auto
  have c8: "during run = ViaFailure failure # ds \<or>
      during run = [] \<and> thrown run = None \<and> afterwards run = ViaFailure failure # ds \<longrightarrow>
      promise_of ?call = Rejected failure"
    using first [of "ViaFailure failure"] hf by auto
  from c1 c2 c3 c4 c5 c6 c7 c8 show ?thesis by blast
qed

theorem error_envelope_rejected_witness:
  "promise_of (call 300000
      \<lparr>gpContainer = Some (\<lambda>c m p t.
         \<lparr>during = [ViaSuccess [(''success'', JBool False), (''error_code'', JStr ''DENIED'')],
                    ViaFailure (JStr ''timeout'')],
          thrown = None,
          afterwards = [ViaFailure (JStr ''timeout''),
                        ViaSuccess [(''success'', JBool False), (''error_code'', JStr ''DENIED'')]]\<rparr>)\<rparr>
      ''GPSystem'' ''getLocale'' None None) =
     Rejected (JObj [(''success'', JBool False), (''error_code'', JStr ''DENIED'')])
   \<and> FailureCallback (JStr ''timeout'') \<in> set (deferred (callWithCallbacks 300000
      \<lparr>gpContainer = Some (\<lambda>c m p t.
         \<lparr>during = [ViaSuccess [(''success'', JBool False), (''error_code'', JStr ''DENIED'')],
                    ViaFailure (JStr ''timeout'')],
          thrown = None,
          afterwards = [ViaFailure (JStr ''timeout''),
                        ViaSuccess [(''success'', JBool False), (''error_code'', JStr ''DENIED'')]]\<rparr>)\<rparr>
      ''GPSystem'' ''getLocale'' None None))
   \<and> promise_of (call 300000
      \<lparr>gpContainer = Some (\<lambda>c m p t.
         \<lparr>during = [], thrown = None, afterwards = [ViaFailure (JStr ''timeout'')]\<rparr>)\<rparr>
      ''GPSystem'' ''getLocale'' None None) = Rejected (JStr ''timeout'')"
proof -
  let ?env = "[(''success'', JBool False), (''error_code'', JStr ''DENIED'')]"
  let ?runA = "\<lparr>during = [ViaSuccess ?env, ViaFailure (JStr ''timeout'')],
          thrown = None,
          afterwards = [ViaFailure (JStr ''timeout''), ViaSuccess ?env]\<rparr>"
  let ?runB = "\<lparr>during = [], thrown = None, afterwards = [ViaFailure (JStr ''timeout'')]\<rparr>"
  let ?gpA = "\<lambda>(c::string) (m::string) (p::jsobj) (t::int). ?runA"
  let ?gpB = "\<lambda>(c::string) (m::string) (p::jsobj) (t::int). ?runB"
  have failed: "get_prop ?env ''success'' = JBool False" by (simp add: get_prop_def)
  have bA: "gpContainer \<lparr>gpContainer = Some ?gpA\<rparr> = Some ?gpA" by simp
  have bB: "gpContainer \<lparr>gpContainer = Some ?gpB\<rparr> = Some ?gpB" by simp
  have rA: "?gpA ''GPSystem'' ''getLocale'' (case None of None \<Rightarrow> [] | Some x \<Rightarrow> x)
      (case None of None \<Rightarrow> 300000 | Some x \<Rightarrow> x) = ?runA" by simp
  have rB: "?gpB ''GPSystem'' ''getLocale'' (case None of None \<Rightarrow> [] | Some x \<Rightarrow> x)
      (case None of None \<Rightarrow> 300000 | Some x \<Rightarrow> x) = ?runB" by simp
  note A = error_envelope_rejected [OF bA rA failed,
      where failure = "JStr ''timeout''" and ds = "[ViaFailure (JStr ''timeout'')]"]
  note B = error_envelope_rejected [OF bB rB failed,
      where failure = "JStr ''timeout''" and ds = "[]"]
  from A have 1: "promise_of (call 300000 \<lparr>gpContainer = Some ?gpA\<rparr>
      ''GPSystem'' ''getLocale'' None None) = Rejected (JObj ?env)" by simp
  from A have 2: "FailureCallback (JStr ''timeout'') \<in> set (deferred (callWithCallbacks 300000
      \<lparr>gpContainer = Some ?gpA\<rparr> ''GPSystem'' ''getLocale'' None None))" by simp
  from B have 3: "promise_of (call 300000 \<lparr>gpContainer = Some ?gpB\<rparr>
      ''GPSystem'' ''getLocale'' None None) = Rejected (JStr ''timeout'')" by simp
  from 1 2 3 show ?thesis by blast
qed

text \<open>
  C3. With the bridge present, every response the bridge delivers on the success channel
  with \<^verbatim>\<open>success: true\<close> is reported as a success with that very object, whatever other
  properties (\<^verbatim>\<open>ret\<close>, \<^verbatim>\<open>data\<close>, ...) it has: \<^verbatim>\<open>call\<close> invokes \<^verbatim>\<open>resolve\<close> with it
  and \<^verbatim>\<open>callWithCallbacks\<close> invokes the success callback with it. When the delivery is
  the first thing the bridge does with its callbacks, the promise ends fulfilled with it.
\<close>

theorem success_envelope_resolved:
  assumes bridge: "gpContainer w = Some gp"
    and run: "gp c m (case p of None \<Rightarrow> [] | Some x \<Rightarrow> x)
                (case t of None \<Rightarrow> dt | Some x \<Rightarrow> x) = run"
    and ok: "get_prop response ''success'' = JBool True"
  shows "(ViaSuccess response \<in> set (during run) \<longrightarrow>
            Resolve (JObj response) \<in> set (immediate (call dt w c m p t)) \<and>
            SuccessCallback (JObj response) \<in> set (immediate (callWithCallbacks dt w c m p t)))
       \<and> (ViaSuccess response \<in> set (afterwards run) \<longrightarrow>
            Resolve (JObj response) \<in> set (deferred (call dt w c m p t)) \<and>
            SuccessCallback (JObj response) \<in> set (deferred (callWithCallbacks dt w c m p t)))
       \<and> (during run = ViaSuccess response # ds \<or>
            during run = [] \<and> thrown run = None \<and> afterwards run = ViaSuccess response # ds \<longrightarrow>
            promise_of (call dt w c m p t) = Fulfilled (JObj response))"
proof -
  let ?call = "call dt w c m p t" and ?cwc = "callWithCallbacks dt w c m p t"
  have ci: "immediate ?call = map call_handler (during run) @
      (case thrown run of None \<Rightarrow> [] | Some err \<Rightarrow> [Reject (call_exception err)])"
    and cd: "deferred ?call = map call_handler (afterwards run)"
    using run by (simp_all add: call_present [OF bridge] Let_def)
  have wi: "immediate ?cwc = map callWithCallbacks_handler (during run) @
      (case thrown run of None \<Rightarrow> [] | Some err \<Rightarrow> [FailureCallback (call_exception err)])"
    and wd: "deferred ?cwc = map callWithCallbacks_handler (afterwards run)"
    using run by (simp_all add: callWithCallbacks_present [OF bridge] Let_def)
  have hs: "call_handler (ViaSuccess response) = Resolve (JObj response)"
    and ws: "callWithCallbacks_handler (ViaSuccess response) = SuccessCallback (JObj response)"
    using ok by (simp_all add: call_onSuccess_def callWithCallbacks_onSuccess_def)
  have c1: "ViaSuccess response \<in> set (during run) \<longrightarrow>
      Resolve (JObj response) \<in> set (immediate ?call) \<and>
      SuccessCallback (JObj response) \<in> set (immediate ?cwc)"
    using hs ws by (auto simp: ci wi image_iff intro: bexI [of _ "ViaSuccess response"])
  have c2: "ViaSuccess response \<in> set (afterwards run) \<longrightarrow>
      Resolve (JObj response) \<in> set (deferred ?call) \<and>
      SuccessCallback (JObj response) \<in> set (deferred ?cwc)"
    using hs ws by (auto simp: cd wd image_iff intro: bexI [of _ "ViaSuccess response"])
  have c3: "during run = ViaSuccess response # ds \<or>
      during run = [] \<and> thrown run = None \<and> afterwards run = ViaSuccess response # ds \<longrightarrow>
      promise_of ?call = Fulfilled (JObj response)"
  proof
    assume "during run = ViaSuccess response # ds \<or>
      during run = [] \<and> thrown run = None \<and> afterwards run = ViaSuccess response # ds"
    then have "\<exists>rest. immediate ?call @ deferred ?call = call_handler (ViaSuccess response) # rest"
      by (auto simp: ci cd)
    then show "promise_of ?call = Fulfilled (JObj response)"
      using hs by (auto dest: promise_of_first)
  qed
  from c1 c2 c3 show ?thesis by blast
qed

theorem success_envelope_resolved_witness:
  "promise_of (call 300000
      \<lparr>gpContainer = Some (\<lambda>c m p t.
         \<lparr>during = [], thrown = None,
          afterwards = [ViaSuccess [(''success'', JBool True), (''ret'', JStr ''GP_SUCCESS''),
                          (''data'', JObj [(''authCode'', JStr ''abc'')])]]\<rparr>)\<rparr>
      ''GPMiniAppAuth'' ''getAuthCode'' (Some []) (Some 5000)) =
     Fulfilled (JObj [(''success'', JBool True), (''ret'', JStr ''GP_SUCCESS''),
                      (''data'', JObj [(''authCode'', JStr ''abc'')])])
   \<and> SuccessCallback (JObj [(''success'', JBool True), (''ret'', JStr ''GP_SUCCESS''),
                      (''data'', JObj [(''authCode'', JStr ''abc'')])])
     \<in> set (deferred (callWithCallbacks 300000
      \<lparr>gpContainer = Some (\<lambda>c m p t.
         \<lparr>during = [], thrown = None,
          afterwards = [ViaSuccess [(''success'', JBool True), (''ret'', JStr ''GP_SUCCESS''),
                          (''data'', JObj [(''authCode'', JStr ''abc'')])]]\<rparr>)\<rparr>
      ''GPMiniAppAuth'' ''getAuthCode'' (Some []) (Some 5000)))"
proof -
  let ?env = "[(''success'', JBool True), (''ret'', JStr ''GP_SUCCESS''),
               (''data'', JObj [(''authCode'', JStr ''abc'')])]"
  let ?run = "\<lparr>during = [], thrown = None, afterwards = [ViaSuccess ?env]\<rparr>"
  let ?gp = "\<lambda>(c::string) (m::string) (p::jsobj) (t::int). ?run"
  have ok: "get_prop ?env ''success'' = JBool True" by (simp add: get_prop_def)
  have b: "gpContainer \<lparr>gpContainer = Some ?gp\<rparr> = Some ?gp" by simp
  have r: "?gp ''GPMiniAppAuth'' ''getAuthCode'' (case Some [] of None \<Rightarrow> [] | Some x \<Rightarrow> x)
      (case Some 5000 of None \<Rightarrow> 300000 | Some x \<Rightarrow> x) = ?run" by simp
  note A = success_envelope_resolved [OF b r ok, where ds = "[]"]
  from A have 1: "promise_of (call 300000 \<lparr>gpContainer = Some ?gp\<rparr>
      ''GPMiniAppAuth'' ''getAuthCode'' (Some []) (Some 5000)) = Fulfilled (JObj ?env)" by simp
  from A have 2: "SuccessCallback (JObj ?env) \<in> set (deferred (callWithCallbacks 300000
      \<lparr>gpContainer = Some ?gp\<rparr> ''GPMiniAppAuth'' ''getAuthCode'' (Some []) (Some 5000)))" by simp
  from 1 2 show ?thesis by blast
qed

text \<open>
  C4. When the bridge primitive throws \<open>err\<close>, \<^verbatim>\<open>call\<close> invokes \<^verbatim>\<open>reject\<close> and
  \<^verbatim>\<open>callWithCallbacks\<close> invokes the failure callback, before returning and after whatever
  the bridge delivered before it threw, with the \<^verbatim>\<open>CALL_EXCEPTION\<close> envelope whose
  \<^verbatim>\<open>error_message\<close> is the message of \<open>err\<close> when \<open>err\<close> is an \<^verbatim>\<open>Error\<close> and
  \<^verbatim>\<open>Unknown error occurred\<close> otherwise. When the bridge delivered nothing before it
  threw, the promise ends rejected with that envelope.
\<close>

theorem bridge_throw_call_exception:
  assumes bridge: "gpContainer w = Some gp"
    and run: "gp c m (case p of None \<Rightarrow> [] | Some x \<Rightarrow> x)
                (case t of None \<Rightarrow> dt | Some x \<Rightarrow> x) = run"
    and throws: "thrown run = Some err"
    and env: "envelope = JObj [(''success'', JBool False),
                (''error_code'', JStr ''CALL_EXCEPTION''),
                (''error_type'', JStr ''JS_BRIDGE_ERROR''),
                (''error_message'',
                   JStr (case err of ErrorInstance message \<Rightarrow> message
                                   | NotAnError v \<Rightarrow> ''Unknown error occurred'')),
                (''ret'', JStr ''GP_EXCEPTION'')]"
  shows "immediate (call dt w c m p t) = map call_handler (during run) @ [Reject envelope]
       \<and> immediate (callWithCallbacks dt w c m p t) =
           map callWithCallbacks_handler (during run) @ [FailureCallback envelope]
       \<and> (during run = [] \<longrightarrow> promise_of (call dt w c m p t) = Rejected envelope)"
proof -
  let ?call = "call dt w c m p t" and ?cwc = "callWithCallbacks dt w c m p t"
  have e: "call_exception err = envelope"
    unfolding env by (cases err) (simp_all add: call_exception_def GopayErrorResponse_def)
  have ci: "immediate ?call = map call_handler (during run) @ [Reject envelope]"
    using run throws e by (simp add: call_present [OF bridge] Let_def)
  have wi: "immediate ?cwc = map callWithCallbacks_handler (during run) @ [FailureCallback envelope]"
    using run throws e by (simp add: callWithCallbacks_present [OF bridge] Let_def)
  have pr: "during run = [] \<longrightarrow> promise_of ?call = Rejected envelope"
  proof
    assume "during run = []"
    then have "immediate ?call @ deferred ?call = Reject envelope # deferred ?call"
      by (simp add: ci)
    from promise_of_first [OF this] show "promise_of ?call = Rejected envelope" by simp
  qed
  from ci wi pr show ?thesis by blast
qed

theorem bridge_throw_call_exception_witness:
  "promise_of (call 300000
      \<lparr>gpContainer = Some (\<lambda>c m p t.
         \<lparr>during = [], thrown = Some (ErrorInstance ''bridge not attached''), afterwards = []\<rparr>)\<rparr>
      ''GPDevice'' ''vibrate'' None None) =
     Rejected (JObj [(''success'', JBool False),
                (''error_code'', JStr ''CALL_EXCEPTION''),
                (''error_type'', JStr ''JS_BRIDGE_ERROR''),
                (''error_message'', JStr ''bridge not attached''),
                (''ret'', JStr ''GP_EXCEPTION'')])
   \<and> immediate (callWithCallbacks 300000
      \<lparr>gpContainer = Some (\<lambda>c m p t.
         \<lparr>during = [], thrown = Some (NotAnError (JStr ''boom'')), afterwards = []\<rparr>)\<rparr>
      ''GPDevice'' ''vibrate'' None None) =
     [FailureCallback (JObj [(''success'', JBool False),
                (''error_code'', JStr ''CALL_EXCEPTION''),
                (''error_type'', JStr ''JS_BRIDGE_ERROR''),
                (''error_message'', JStr ''Unknown error occurred''),
                (''ret'', JStr ''GP_EXCEPTION'')])]"
proof -
  let ?runA = "\<lparr>during = [], thrown = Some (ErrorInstance ''bridge not attached''), afterwards = []\<rparr>"
  let ?runB = "\<lparr>during = [], thrown = Some (NotAnError (JStr ''boom'')), afterwards = []\<rparr>"
  let ?gpA = "\<lambda>(c::string) (m::string) (p::jsobj) (t::int). ?runA"
  let ?gpB = "\<lambda>(c::string) (m::string) (p::jsobj) (t::int). ?runB"
  have bA: "gpContainer \<lparr>gpContainer = Some ?gpA\<rparr> = Some ?gpA" by simp
  have bB: "gpContainer \<lparr>gpContainer = Some ?gpB\<rparr> = Some ?gpB" by simp
  have rA: "?gpA ''GPDevice'' ''vibrate'' (case None of None \<Rightarrow> [] | Some x \<Rightarrow> x)
      (case None of None \<Rightarrow> 300000 | Some x \<Rightarrow> x) = ?runA" by simp
  have rB: "?gpB ''GPDevice'' ''vibrate'' (case None of None \<Rightarrow> [] | Some x \<Rightarrow> x)
      (case None of None \<Rightarrow> 300000 | Some x \<Rightarrow> x) = ?runB" by simp
  have tA: "thrown ?runA = Some (ErrorInstance ''bridge not attached'')" by simp
  have tB: "thrown ?runB = Some (NotAnError (JStr ''boom''))" by simp
  note A = bridge_throw_call_exception [OF bA rA tA refl]
  note B = bridge_throw_call_exception [OF bB rB tB refl]
  from A have 1: "promise_of (call 300000 \<lparr>gpContainer = Some ?gpA\<rparr>
      ''GPDevice'' ''vibrate'' None None) =
     Rejected (JObj [(''success'', JBool False),
                (''error_code'', JStr ''CALL_EXCEPTION''),
                (''error_type'', JStr ''JS_BRIDGE_ERROR''),
                (''error_message'', JStr ''bridge not attached''),
                (''ret'', JStr ''GP_EXCEPTION'')])" by simp
  from B have 2: "immediate (callWithCallbacks 300000 \<lparr>gpContainer = Some ?gpB\<rparr>
      ''GPDevice'' ''vibrate'' None None) =
     [FailureCallback (JObj [(''success'', JBool False),
                (''error_code'', JStr ''CALL_EXCEPTION''),
                (''error_type'', JStr ''JS_BRIDGE_ERROR''),
                (''error_message'', JStr ''Unknown error occurred''),
                (''ret'', JStr ''GP_EXCEPTION'')])]" by simp
  from 1 2 show ?thesis by blast
qed

text \<open>
  C8. For every string argument, \<^verbatim>\<open>getUserConsent\<close> is \<^verbatim>\<open>call\<close> with class
  \<^verbatim>\<open>GPConsent\<close>, method \<^verbatim>\<open>getUserConsent\<close> and params \<^verbatim>\<open>{consent_name: c}\<close>, and
  \<^verbatim>\<open>launchDeeplink\<close> is \<^verbatim>\<open>call\<close> with class \<^verbatim>\<open>GPNavigator\<close>, method
  \<^verbatim>\<open>launchDeeplink\<close> and params \<^verbatim>\<open>{deeplink: d}\<close>; with the bridge present, the bridge
  primitive is invoked once, with these and the default timeout. The other two wrappers
  with a string argument do the same with their class, method and key:
  \<^verbatim>\<open>launchUri\<close> with \<^verbatim>\<open>GPNavigator\<close>, \<^verbatim>\<open>launchUri\<close>, \<^verbatim>\<open>{uri: u}\<close>, and
  \<^verbatim>\<open>launchPayment\<close> with \<^verbatim>\<open>GP\<close>, \<^verbatim>\<open>launchPayment\<close>, \<^verbatim>\<open>{deeplink: d}\<close>.
\<close>

theorem string_wrappers_shape:
  "getUserConsent dt w consentName =
     call dt w ''GPConsent'' ''getUserConsent'' (Some [(''consent_name'', JStr consentName)]) None
   \<and> launchDeeplink dt w deeplink =
     call dt w ''GPNavigator'' ''launchDeeplink'' (Some [(''deeplink'', JStr deeplink)]) None
   \<and> launchUri dt w uri =
     call dt w ''GPNavigator'' ''launchUri'' (Some [(''uri'', JStr uri)]) None
   \<and> launchPayment dt w deeplink =
     call dt w ''GP'' ''launchPayment'' (Some [(''deeplink'', JStr deeplink)]) None
   \<and> (gpContainer w \<noteq> None \<longrightarrow>
        dispatched (getUserConsent dt w consentName) =
          [(''GPConsent'', ''getUserConsent'', [(''consent_name'', JStr consentName)], dt)]
      \<and> dispatched (launchDeeplink dt w deeplink) =
          [(''GPNavigator'', ''launchDeeplink'', [(''deeplink'', JStr deeplink)], dt)])"
  by (auto simp: getUserConsent_def launchDeeplink_def launchUri_def launchPayment_def
      call_def Let_def)

theorem string_wrappers_shape_witness:
  "gpContainer \<lparr>gpContainer = Some (\<lambda>c m p t. \<lparr>during = [], thrown = None, afterwards = []\<rparr>)\<rparr> \<noteq> None
   \<and> dispatched (getUserConsent 300000
        \<lparr>gpContainer = Some (\<lambda>c m p t. \<lparr>during = [], thrown = None, afterwards = []\<rparr>)\<rparr> ''marketing'') =
       [(''GPConsent'', ''getUserConsent'', [(''consent_name'', JStr ''marketing'')], 300000)]
   \<and> dispatched (launchDeeplink 300000
        \<lparr>gpContainer = Some (\<lambda>c m p t. \<lparr>during = [], thrown = None, afterwards = []\<rparr>)\<rparr> ''app://home'') =
       [(''GPNavigator'', ''launchDeeplink'', [(''deeplink'', JStr ''app://home'')], 300000)]"
proof -
  let ?w = "\<lparr>gpContainer = Some (\<lambda>c m p t. \<lparr>during = [], thrown = None, afterwards = []\<rparr>)\<rparr>"
  have present: "gpContainer ?w \<noteq> None" by simp
  from string_wrappers_shape [of 300000 ?w "''marketing''" "''app://home''" "''https://x''"]
    present
  show ?thesis by blast
qed

section \<open>Properties of the script loader\<close>

lemma mark_loaded_eq:
  "mark_loaded i options w =
     w\<lparr>loaders := (loaders w)(i := (loaders w i)\<lparr>loadedRef := True, isLoaded := True\<rparr>),
       app := (case onLoad options of None \<Rightarrow> app w | Some f \<Rightarrow> (app w)(i := f (app w i)))\<rparr>"
  by (simp add: mark_loaded_def invoke_onLoad_def update_loader_def split: option.splits)

lemma page_step_LoadFires:
  "page_step p (LoadFires s) = (dispatch_load s (fst p), snd p)"
  by (cases p) simp

lemma page_step_ErrorFires:
  "page_step p (ErrorFires s err) = (dispatch_error s err (fst p), snd p)"
  by (cases p) simp

lemma page_step_WindowBecomes:
  "page_step p (WindowBecomes win) = ((fst p)\<lparr>window_obj := win\<rparr>, snd p)"
  by (cases p) simp

lemma page_step_CleanupRuns:
  "page_step p (CleanupRuns i) =
     ((case snd p i of None \<Rightarrow> fst p | Some f \<Rightarrow> f (fst p)), (snd p)(i := None))"
  by (cases p) (simp split: option.splits)

lemma page_step_EffectRuns:
  "page_step p (EffectRuns i options) =
     (fst (useJSAPILoader_effect i options (case snd p i of None \<Rightarrow> fst p | Some f \<Rightarrow> f (fst p))),
      (snd p)(i := snd (useJSAPILoader_effect i options
         (case snd p i of None \<Rightarrow> fst p | Some f \<Rightarrow> f (fst p)))))"
  by (cases p) (simp split: option.splits prod.splits)

lemmas page_step_events =
  page_step_LoadFires page_step_ErrorFires page_step_WindowBecomes page_step_CleanupRuns
  page_step_EffectRuns

lemma script_onerror_eq:
  "script_onerror (i, options) err w =
     w\<lparr>loaders := (loaders w)(i := (loaders w i)
          \<lparr>error := Some (''Failed to load script: '' @ GOPAY_SDK_URL), isLoading := False\<rparr>),
       app := (case onError options of None \<Rightarrow> app w | Some f \<Rightarrow> (app w)(i := f err (app w i))),
       console_error := console_error w @ [(''Failed to load script: '' @ GOPAY_SDK_URL, err)]\<rparr>"
  by (simp add: invoke_onError_def update_loader_def Let_def split: option.splits)

text \<open>
  C5. An activation of the loader that asks \<^verbatim>\<open>skipIfExists\<close> (the instance is not
  already marked loaded, the predicate is supplied) and gets \<^verbatim>\<open>true\<close> marks the instance
  loaded (\<^verbatim>\<open>loadedRef\<close> and \<^verbatim>\<open>isLoaded\<close> become true), invokes \<^verbatim>\<open>onLoad\<close> once
  before it returns, and changes nothing else: the script elements of the document are the
  same, so no element is created and nothing is fetched, and no cleanup is returned.
\<close>

theorem skipIfExists_short_circuit:
  assumes "\<not> loadedRef (loaders w i)"
    and "skipIfExists options = Some p"
    and "p (window_obj w)"
  shows "useJSAPILoader_effect i options w =
           (w\<lparr>loaders := (loaders w)(i := (loaders w i)\<lparr>loadedRef := True, isLoaded := True\<rparr>),
              app := (case onLoad options of None \<Rightarrow> app w | Some f \<Rightarrow> (app w)(i := f (app w i)))\<rparr>,
            None)
       \<and> isLoaded (loaders (fst (useJSAPILoader_effect i options w)) i)
       \<and> scripts (fst (useJSAPILoader_effect i options w)) = scripts w
       \<and> fresh (fst (useJSAPILoader_effect i options w)) = fresh w"
  using assms by (simp add: useJSAPILoader_effect_def mark_loaded_eq scripts_def)

theorem skipIfExists_short_circuit_witness:
  "app (fst (useJSAPILoader_effect 0
       \<lparr>onLoad = Some Suc, onError = None, skipIfExists = Some (\<lambda>win. True),
        async_opt = None, defer_opt = None\<rparr>
       (empty_page \<lparr>gpContainer = None\<rparr> (0::nat)))) 0 = 1
   \<and> scripts (fst (useJSAPILoader_effect 0
       \<lparr>onLoad = Some Suc, onError = None, skipIfExists = Some (\<lambda>win. True),
        async_opt = None, defer_opt = None\<rparr>
       (empty_page \<lparr>gpContainer = None\<rparr> (0::nat)))) = []
   \<and> isLoaded (loaders (fst (useJSAPILoader_effect 0
       \<lparr>onLoad = Some Suc, onError = None, skipIfExists = Some (\<lambda>win. True),
        async_opt = None, defer_opt = None\<rparr>
       (empty_page \<lparr>gpContainer = None\<rparr> (0::nat)))) 0)"
proof -
  let ?o = "\<lparr>onLoad = Some Suc, onError = None, skipIfExists = Some (\<lambda>win::window. True),
        async_opt = None, defer_opt = None\<rparr>"
  let ?w = "empty_page \<lparr>gpContainer = None\<rparr> (0::nat)"
  have 1: "\<not> loadedRef (loaders ?w 0)" by (simp add: empty_page_def initial_loader_def)
  have 2: "skipIfExists ?o = Some (\<lambda>win. True)" by simp
  have 3: "(\<lambda>win::window. True) (window_obj ?w)" by simp
  from skipIfExists_short_circuit [OF 1 2 3] show ?thesis
    by (simp add: scripts_def empty_page_def)
qed

text \<open>
  The \<^verbatim>\<open>onerror\<close> handler. When the \<^verbatim>\<open>error\<close> event fires on a script element that
  the loader of instance \<open>i\<close> created, in the document or already removed from it, the
  handler sets \<^verbatim>\<open>error\<close> to exactly
  \<^verbatim>\<open>Failed to load script: https://gwk.gopayapi.com/sdk/stable/gp-container.min.js\<close>,
  sets \<^verbatim>\<open>isLoading\<close> to false, invokes \<^verbatim>\<open>onError\<close> with the event and writes the
  message and the event to \<^verbatim>\<open>console.error\<close>. The handler itself creates and removes no
  element, and leaves \<^verbatim>\<open>isLoaded\<close> and the \<^verbatim>\<open>loadedRef\<close> guard as they were.
\<close>

theorem script_error_reported:
  assumes "find (\<lambda>e. sid e = s) (elements w) = Some e"
    and "onerror e = Some (i, options)"
  shows "error (loaders (dispatch_error s err w) i) =
           Some ''Failed to load script: https://gwk.gopayapi.com/sdk/stable/gp-container.min.js''
       \<and> isLoading (loaders (dispatch_error s err w) i) = False
       \<and> app (dispatch_error s err w) =
           (case onError options of None \<Rightarrow> app w | Some f \<Rightarrow> (app w)(i := f err (app w i)))
       \<and> console_error (dispatch_error s err w) = console_error w @
           [(''Failed to load script: https://gwk.gopayapi.com/sdk/stable/gp-container.min.js'', err)]
       \<and> scripts (dispatch_error s err w) = scripts w
       \<and> detached (dispatch_error s err w) = detached w
       \<and> fresh (dispatch_error s err w) = fresh w
       \<and> isLoaded (loaders (dispatch_error s err w) i) = isLoaded (loaders w i)
       \<and> loadedRef (loaders (dispatch_error s err w) i) = loadedRef (loaders w i)"
proof -
  have d: "dispatch_error s err w = script_onerror (i, options) err w"
    using assms by (simp add: dispatch_error_def del: script_onerror.simps)
  show ?thesis
    unfolding d script_onerror_eq
    by (simp add: scripts_def GOPAY_SDK_URL_def)
qed

lemmas page_eval =
  page_life_def empty_page_def initial_miniapp_def miniapp_loader_options_def
  useJSAPILoader_effect_def querySelector_script_def scripts_def elements_def update_loader_def
  Let_def initial_loader_def dispatch_error_def dispatch_load_def invoke_onError_def
  invoke_onLoad_def miniapp_onError_def miniapp_onLoad_def cleanup_def update_script_def
  setAttribute_def hasAttribute_def mark_loaded_def GOPAY_SDK_URL_def existingScript_def

theorem script_error_reported_witness:
  "error (loaders (fst (page_life (empty_page \<lparr>gpContainer = None\<rparr> (0::nat), \<lambda>i. None)
       [EffectRuns 0 \<lparr>onLoad = None, onError = Some (\<lambda>err n. Suc n), skipIfExists = None,
          async_opt = None, defer_opt = None\<rparr>,
        ErrorFires 0 (Event ''error'')])) 0) =
     Some ''Failed to load script: https://gwk.gopayapi.com/sdk/stable/gp-container.min.js''
   \<and> isLoading (loaders (fst (page_life (empty_page \<lparr>gpContainer = None\<rparr> (0::nat), \<lambda>i. None)
       [EffectRuns 0 \<lparr>onLoad = None, onError = Some (\<lambda>err n. Suc n), skipIfExists = None,
          async_opt = None, defer_opt = None\<rparr>,
        ErrorFires 0 (Event ''error'')])) 0) = False
   \<and> app (fst (page_life (empty_page \<lparr>gpContainer = None\<rparr> (0::nat), \<lambda>i. None)
       [EffectRuns 0 \<lparr>onLoad = None, onError = Some (\<lambda>err n. Suc n), skipIfExists = None,
          async_opt = None, defer_opt = None\<rparr>,
        ErrorFires 0 (Event ''error'')])) 0 = 1"
proof -
  let ?o = "\<lparr>onLoad = None, onError = Some (\<lambda>(err::dom_event) n. Suc n), skipIfExists = None,
        async_opt = None, defer_opt = None\<rparr>"
  let ?e = "\<lparr>sid = 0, src = GOPAY_SDK_URL, async_attr = True, defer_attr = False,
        attributes = [], onload = Some (0, ?o), onerror = Some (0, ?o), load_listeners = []\<rparr>"
  let ?w1 = "fst (useJSAPILoader_effect 0 ?o (empty_page \<lparr>gpContainer = None\<rparr> (0::nat)))"
  have w1: "?w1 = \<lparr>window_obj = \<lparr>gpContainer = None\<rparr>, doc_head = [?e], doc_rest = [],
        detached = [], fresh = 1,
        loaders = (\<lambda>i. initial_loader)(0 := initial_loader\<lparr>isLoading := True, scriptRef := Some 0\<rparr>),
        console_error = [], app = (\<lambda>i. 0)\<rparr>"
    by (simp add: useJSAPILoader_effect_def empty_page_def initial_loader_def
        querySelector_script_def scripts_def update_loader_def Let_def)
  have life: "fst (page_life (empty_page \<lparr>gpContainer = None\<rparr> (0::nat), \<lambda>i. None)
       [EffectRuns 0 ?o, ErrorFires 0 (Event ''error'')]) = dispatch_error 0 (Event ''error'') ?w1"
    by (simp add: page_life_def page_step_events)
  have found: "find (\<lambda>e. sid e = 0) (elements ?w1) = Some ?e"
    by (simp add: w1 elements_def scripts_def)
  have handler: "onerror ?e = Some (0, ?o)" by simp
  have app1: "app ?w1 = (\<lambda>i. 0)" by (simp add: w1)
  from script_error_reported [OF found handler, of "Event ''error''"] app1
  show ?thesis unfolding life by simp
qed

text \<open>
  C6. The code does not keep the errored state terminal, and it does retry. Here
  \<^verbatim>\<open>useMiniapp()\<close> is mounted as instance 0 on a page without the bridge, and the events
  are those React produces. \<^verbatim>\<open>useMiniapp\<close> passes three new closures to the loader at
  every render and they are dependencies of the effect, so the effect runs again after
  every render. On mount the effect creates element 0 and sets \<^verbatim>\<open>isLoading\<close>; the render
  this causes runs the effect again: element 0 is removed, element 1 created. The
  \<^verbatim>\<open>error\<close> event of element 1 sets \<^verbatim>\<open>error\<close> and clears \<^verbatim>\<open>isLoading\<close>, as the
  claim says. But the render this causes runs the effect again (its guard tests only
  \<^verbatim>\<open>loadedRef\<close>): element 1 is removed, element 2 is created for the same URL and
  \<^verbatim>\<open>isLoading\<close> is true again, with \<^verbatim>\<open>error\<close> still set; the next render makes it
  element 3. One failure has led to two more requests, and each further failure does the
  same.
\<close>

theorem error_restarts_load_under_useMiniapp:
  "error (loaders (fst (page_life (empty_page \<lparr>gpContainer = None\<rparr> (initial_miniapp ()), \<lambda>i. None)
       [EffectRuns 0 (miniapp_loader_options
          \<lparr>onReady = None, onError_miniapp = None, defaultTimeout = None\<rparr>),
        EffectRuns 0 (miniapp_loader_options
          \<lparr>onReady = None, onError_miniapp = None, defaultTimeout = None\<rparr>),
        ErrorFires 1 (Event ''error'')])) 0) =
     Some ''Failed to load script: https://gwk.gopayapi.com/sdk/stable/gp-container.min.js''
   \<and> isLoading (loaders (fst (page_life
       (empty_page \<lparr>gpContainer = None\<rparr> (initial_miniapp ()), \<lambda>i. None)
       [EffectRuns 0 (miniapp_loader_options
          \<lparr>onReady = None, onError_miniapp = None, defaultTimeout = None\<rparr>),
        EffectRuns 0 (miniapp_loader_options
          \<lparr>onReady = None, onError_miniapp = None, defaultTimeout = None\<rparr>),
        ErrorFires 1 (Event ''error'')])) 0) = False
   \<and> isLoading (loaders (fst (page_life
       (empty_page \<lparr>gpContainer = None\<rparr> (initial_miniapp ()), \<lambda>i. None)
       [EffectRuns 0 (miniapp_loader_options
          \<lparr>onReady = None, onError_miniapp = None, defaultTimeout = None\<rparr>),
        EffectRuns 0 (miniapp_loader_options
          \<lparr>onReady = None, onError_miniapp = None, defaultTimeout = None\<rparr>),
        ErrorFires 1 (Event ''error''),
        EffectRuns 0 (miniapp_loader_options
          \<lparr>onReady = None, onError_miniapp = None, defaultTimeout = None\<rparr>)])) 0) = True
   \<and> map (\<lambda>e. (sid e, src e)) (scripts (fst (page_life
       (empty_page \<lparr>gpContainer = None\<rparr> (initial_miniapp ()), \<lambda>i. None)
       [EffectRuns 0 (miniapp_loader_options
          \<lparr>onReady = None, onError_miniapp = None, defaultTimeout = None\<rparr>),
        EffectRuns 0 (miniapp_loader_options
          \<lparr>onReady = None, onError_miniapp = None, defaultTimeout = None\<rparr>),
        ErrorFires 1 (Event ''error''),
        EffectRuns 0 (miniapp_loader_options
          \<lparr>onReady = None, onError_miniapp = None, defaultTimeout = None\<rparr>)]))) =
     [(2, ''https://gwk.gopayapi.com/sdk/stable/gp-container.min.js'')]
   \<and> map (\<lambda>e. (sid e, src e)) (scripts (fst (page_life
       (empty_page \<lparr>gpContainer = None\<rparr> (initial_miniapp ()), \<lambda>i. None)
       [EffectRuns 0 (miniapp_loader_options
          \<lparr>onReady = None, onError_miniapp = None, defaultTimeout = None\<rparr>),
        EffectRuns 0 (miniapp_loader_options
          \<lparr>onReady = None, onError_miniapp = None, defaultTimeout = None\<rparr>),
        ErrorFires 1 (Event ''error''),
        EffectRuns 0 (miniapp_loader_options
          \<lparr>onReady = None, onError_miniapp = None, defaultTimeout = None\<rparr>),
        EffectRuns 0 (miniapp_loader_options
          \<lparr>onReady = None, onError_miniapp = None, defaultTimeout = None\<rparr>)]))) =
     [(3, ''https://gwk.gopayapi.com/sdk/stable/gp-container.min.js'')]"
  by (simp add: page_eval)

lemma find_SomeD: "find P xs = Some e \<Longrightarrow> e \<in> set xs \<and> P e"
  by (induction xs) (auto split: if_splits)




lemma scripts_mark_loaded [simp]: "scripts (mark_loaded i options w) = scripts w"
  by (simp add: mark_loaded_def invoke_onLoad_def update_loader_def scripts_def split: option.splits)




lemma effect_existing:
  assumes "\<not> loadedRef (loaders w i)"
    and "\<not> (case skipIfExists options of None \<Rightarrow> False | Some p \<Rightarrow> p (window_obj w))"
    and "querySelector_script GOPAY_SDK_URL w = Some existing"
  shows "useJSAPILoader_effect i options w =
           (if hasAttribute existing ''data-loaded''
            then (mark_loaded i options w, None)
            else (update_script (sid existing)
                    (\<lambda>e. e\<lparr>load_listeners := load_listeners e @ [(i, options)]\<rparr>) w, None))"
  using assms by (simp add: useJSAPILoader_effect_def)

lemma effect_create:
  assumes "\<not> loadedRef (loaders w i)"
    and "\<not> (case skipIfExists options of None \<Rightarrow> False | Some p \<Rightarrow> p (window_obj w))"
    and "querySelector_script GOPAY_SDK_URL w = None"
  shows "useJSAPILoader_effect i options w =
           (w\<lparr>loaders := (loaders w)(i := (loaders w i)
                  \<lparr>isLoading := True, scriptRef := Some (fresh w)\<rparr>),
              fresh := Suc (fresh w),
              doc_head := doc_head w @
                [\<lparr>sid = fresh w, src = GOPAY_SDK_URL,
                  async_attr = (case async_opt options of None \<Rightarrow> True | Some b \<Rightarrow> b),
                  defer_attr = (case defer_opt options of None \<Rightarrow> False | Some b \<Rightarrow> b),
                  attributes = [],
                  onload = Some (i, options), onerror = Some (i, options),
                  load_listeners = []\<rparr>]\<rparr>,
            Some (cleanup i))"
  using assms by (simp add: useJSAPILoader_effect_def update_loader_def Let_def)


lemma find_None_filter: "find P xs = None \<Longrightarrow> filter P xs = []"
  by (induction xs) (auto split: if_splits)





section \<open>Properties of the bridge client\<close>

lemma onError_applied_snoc:
  "onError_applied options (errs @ [err]) c =
     (case onError_miniapp options of
        None \<Rightarrow> onError_applied options errs c
      | Some g \<Rightarrow> g err (onError_applied options errs c))"
  by (simp add: onError_applied_def split: option.splits)

lemma onError_applied_Nil [simp]: "onError_applied options [] c = c"
  by (simp add: onError_applied_def)

lemma miniapp_onLoad_fields:
  "isReady (miniapp_onLoad options m) = (\<not> readyRef m \<or> isReady m)"
  "readyRef (miniapp_onLoad options m) = True"
  "caller (miniapp_onLoad options m) =
     (if readyRef m then caller m else onReady_applied options (caller m))"
  by (simp_all add: miniapp_onLoad_def onReady_applied_def Let_def split: option.splits)

lemma miniapp_onError_fields:
  "isReady (miniapp_onError options err m) = isReady m"
  "readyRef (miniapp_onError options err m) = readyRef m"
  "caller (miniapp_onError options err m) =
     (case onError_miniapp options of None \<Rightarrow> caller m | Some g \<Rightarrow> g err (caller m))"
  by (simp_all add: miniapp_onError_def split: option.splits)

text \<open>The two ways a handler of the client itself changes the client's cells.\<close>

lemma ready_inv_onLoad:
  assumes R: "ready_inv i options c0 w"
    and a: "app w' i = miniapp_onLoad options (app w i)"
    and l: "isLoaded (loaders w' i)" "loadedRef (loaders w' i)"
  shows "ready_inv i options c0 w'" and "isReady (app w' i)"
proof -
  from R obtain earlier later where
    r: "readyRef (app w i) = isReady (app w i)"
    and c: "caller (app w i) =
      (if isReady (app w i)
       then onError_applied options later
              (onReady_applied options (onError_applied options earlier c0))
       else onError_applied options earlier c0)"
    unfolding ready_inv_def by blast
  show t: "isReady (app w' i)"
    using r by (simp add: a miniapp_onLoad_fields)
  have "caller (app w' i) =
      onError_applied options (if isReady (app w i) then later else [])
        (onReady_applied options (onError_applied options earlier c0))"
    using r c by (simp add: a miniapp_onLoad_fields)
  then have "\<exists>earlier later. caller (app w' i) =
      onError_applied options later
        (onReady_applied options (onError_applied options earlier c0))"
    by blast
  with t l show "ready_inv i options c0 w'"
    unfolding ready_inv_def by (simp add: a miniapp_onLoad_fields)
qed

lemma ready_inv_onError:
  assumes R: "ready_inv i options c0 w"
    and a: "app w' i = miniapp_onError options err (app w i)"
    and l: "isLoaded (loaders w' i) = isLoaded (loaders w i)"
      "loadedRef (loaders w' i) = loadedRef (loaders w i)"
  shows "ready_inv i options c0 w'" and "isReady (app w' i) = isReady (app w i)"
proof -
  from R obtain earlier later where
    r: "readyRef (app w i) = isReady (app w i)"
      "isLoaded (loaders w i) = isReady (app w i)"
      "loadedRef (loaders w i) = isReady (app w i)"
    and c: "caller (app w i) =
      (if isReady (app w i)
       then onError_applied options later
              (onReady_applied options (onError_applied options earlier c0))
       else onError_applied options earlier c0)"
    unfolding ready_inv_def by blast
  show t: "isReady (app w' i) = isReady (app w i)"
    by (simp add: a miniapp_onError_fields)
  have "caller (app w' i) =
      (if isReady (app w i)
       then onError_applied options (later @ [err])
              (onReady_applied options (onError_applied options earlier c0))
       else onError_applied options (earlier @ [err]) c0)"
    using c by (simp add: a miniapp_onError_fields onError_applied_snoc split: option.splits)
  then have "\<exists>earlier later. caller (app w' i) =
      (if isReady (app w i)
       then onError_applied options later
              (onReady_applied options (onError_applied options earlier c0))
       else onError_applied options earlier c0)"
    by (cases "isReady (app w i)") auto
  with r l show "ready_inv i options c0 w'"
    unfolding ready_inv_def by (simp add: a miniapp_onError_fields)
qed

lemma ready_inv_same:
  assumes "app w' i = app w i" "loaders w' i = loaders w i"
  shows "ready_inv i options c0 w' = ready_inv i options c0 w"
  using assms by (simp add: ready_inv_def)

lemma elements_update_script:
  "elements (update_script s f w) = map (\<lambda>e. if sid e = s then f e else e) (elements w)"
  by (simp add: elements_def scripts_def update_script_def)

lemma elements_mark_loaded [simp]: "elements (mark_loaded i options w) = elements w"
  by (simp add: mark_loaded_eq elements_def scripts_def)

lemma set_elements_cleanup: "set (elements (cleanup j w)) = set (elements w)"
  by (auto simp: cleanup_def elements_def scripts_def split: option.splits)

lemma cleanup_fields:
  "app (cleanup j w) = app w" "loaders (cleanup j w) = loaders w"
  by (simp_all add: cleanup_def split: option.splits)

lemma handlers_inv_subset:
  "set (elements w') \<subseteq> set (elements w) \<Longrightarrow> handlers_inv i options w \<Longrightarrow>
   handlers_inv i options w'"
  unfolding handlers_inv_def by blast

lemma handlers_inv_map:
  assumes "elements w' = map g (elements w)"
    and "\<And>e. client_element i options e \<Longrightarrow> client_element i options (g e)"
    and "handlers_inv i options w"
  shows "handlers_inv i options w'"
  using assms unfolding handlers_inv_def by auto

lemma client_element_setAttribute:
  "client_element i options (setAttribute name v e) = client_element i options e"
  by (simp add: client_element_def setAttribute_def)

lemma client_element_add_listener:
  "client_handler i options h \<Longrightarrow> client_element i options e \<Longrightarrow>
   client_element i options (e\<lparr>load_listeners := load_listeners e @ [h]\<rparr>)"
  by (simp add: client_element_def)

lemma client_handler_own:
  "client_handler i options (i, opts) \<Longrightarrow> opts = miniapp_loader_options options"
  by (simp add: client_handler_def)

lemma cleanup_inv:
  assumes "handlers_inv i options w" "ready_inv i options c0 w"
  shows "handlers_inv i options (cleanup j w)" "ready_inv i options c0 (cleanup j w)"
    "app (cleanup j w) = app w"
  using assms handlers_inv_subset [of "cleanup j w" w i options]
  by (simp_all add: set_elements_cleanup ready_inv_def cleanup_fields)

text \<open>A handler of any instance \<open>j\<close> that marks \<open>j\<close> loaded.\<close>

lemma mark_loaded_inv:
  assumes H: "handlers_inv i options w" and R: "ready_inv i options c0 w"
    and h: "client_handler i options (j, opts)"
  shows "handlers_inv i options (mark_loaded j opts w)
       \<and> ready_inv i options c0 (mark_loaded j opts w)
       \<and> (isReady (app w i) \<longrightarrow> isReady (app (mark_loaded j opts w) i))"
proof -
  have HI: "handlers_inv i options (mark_loaded j opts w)"
    using H by (simp add: handlers_inv_def)
  show ?thesis
  proof (cases "j = i")
    case True
    with h have o: "opts = miniapp_loader_options options" by (simp add: client_handler_def)
    have a: "app (mark_loaded j opts w) i = miniapp_onLoad options (app w i)"
      and l: "isLoaded (loaders (mark_loaded j opts w) i)"
        "loadedRef (loaders (mark_loaded j opts w) i)"
      by (simp_all add: True o mark_loaded_eq miniapp_loader_options_def)
    from ready_inv_onLoad [OF R a l] HI show ?thesis by blast
  next
    case False
    then have "app (mark_loaded j opts w) i = app w i"
      "loaders (mark_loaded j opts w) i = loaders w i"
      by (simp_all add: mark_loaded_eq split: option.splits)
    with R HI show ?thesis by (simp add: ready_inv_def)
  qed
qed

lemma script_onload_eq:
  "script_onload s (j, opts) w =
     (update_script s (setAttribute ''data-loaded'' ''true'') w)
       \<lparr>loaders := (loaders w)(j := (loaders w j)
            \<lparr>loadedRef := True, isLoaded := True, isLoading := False\<rparr>),
        app := (case onLoad opts of None \<Rightarrow> app w | Some f \<Rightarrow> (app w)(j := f (app w j)))\<rparr>"
  by (simp add: invoke_onLoad_def update_loader_def update_script_def split: option.splits)

lemma script_onload_inv:
  assumes H: "handlers_inv i options w" and R: "ready_inv i options c0 w"
    and h: "client_handler i options (j, opts)"
  shows "handlers_inv i options (script_onload s (j, opts) w)
       \<and> ready_inv i options c0 (script_onload s (j, opts) w)
       \<and> (isReady (app w i) \<longrightarrow> isReady (app (script_onload s (j, opts) w) i))"
proof -
  let ?w' = "script_onload s (j, opts) w"
  have el: "elements ?w' =
      map (\<lambda>e. if sid e = s then setAttribute ''data-loaded'' ''true'' e else e) (elements w)"
    unfolding script_onload_eq
    by (simp add: elements_def scripts_def update_script_def)
  have HI: "handlers_inv i options ?w'"
    by (rule handlers_inv_map [OF el _ H]) (simp add: client_element_setAttribute)
  show ?thesis
  proof (cases "j = i")
    case True
    with h have o: "opts = miniapp_loader_options options" by (simp add: client_handler_def)
    have a: "app ?w' i = miniapp_onLoad options (app w i)"
      and l: "isLoaded (loaders ?w' i)" "loadedRef (loaders ?w' i)"
      unfolding script_onload_eq by (simp_all add: True o miniapp_loader_options_def)
    from ready_inv_onLoad [OF R a l] HI show ?thesis by blast
  next
    case False
    then have "app ?w' i = app w i" "loaders ?w' i = loaders w i"
      unfolding script_onload_eq by (simp_all split: option.splits)
    with R HI show ?thesis by (simp add: ready_inv_def)
  qed
qed

lemma script_onerror_inv:
  assumes H: "handlers_inv i options w" and R: "ready_inv i options c0 w"
    and h: "client_handler i options (j, opts)"
  shows "handlers_inv i options (script_onerror (j, opts) err w)
       \<and> ready_inv i options c0 (script_onerror (j, opts) err w)
       \<and> (isReady (app w i) \<longrightarrow> isReady (app (script_onerror (j, opts) err w) i))"
proof -
  let ?w' = "script_onerror (j, opts) err w"
  have el: "elements ?w' = elements w"
    unfolding script_onerror_eq by (simp add: elements_def scripts_def)
  have HI: "handlers_inv i options ?w'"
    using H unfolding handlers_inv_def el .
  show ?thesis
  proof (cases "j = i")
    case True
    with h have o: "opts = miniapp_loader_options options" by (simp add: client_handler_def)
    have a: "app ?w' i = miniapp_onError options err (app w i)"
      and l: "isLoaded (loaders ?w' i) = isLoaded (loaders w i)"
        "loadedRef (loaders ?w' i) = loadedRef (loaders w i)"
      unfolding script_onerror_eq by (simp_all add: True o miniapp_loader_options_def)
    from ready_inv_onError [OF R a l] HI show ?thesis by simp
  next
    case False
    then have "app ?w' i = app w i" "loaders ?w' i = loaders w i"
      unfolding script_onerror_eq by (simp_all split: option.splits)
    with R HI show ?thesis by (simp add: ready_inv_def)
  qed
qed

lemma effect_inv:
  assumes H: "handlers_inv i options w" and R: "ready_inv i options c0 w"
    and h: "client_handler i options (j, opts)"
  shows "handlers_inv i options (fst (useJSAPILoader_effect j opts w))
       \<and> ready_inv i options c0 (fst (useJSAPILoader_effect j opts w))
       \<and> (snd (useJSAPILoader_effect j opts w) = None \<or>
          snd (useJSAPILoader_effect j opts w) = Some (cleanup j))
       \<and> (isReady (app w i) \<longrightarrow> isReady (app (fst (useJSAPILoader_effect j opts w)) i))"
proof -
  let ?skip = "case skipIfExists opts of None \<Rightarrow> False | Some p \<Rightarrow> p (window_obj w)"
  consider (loaded) "loadedRef (loaders w j)"
    | (skip) "\<not> loadedRef (loaders w j)" "?skip"
    | (found) existing where "\<not> loadedRef (loaders w j)" "\<not> ?skip"
        "querySelector_script GOPAY_SDK_URL w = Some existing"
    | (create) "\<not> loadedRef (loaders w j)" "\<not> ?skip"
        "querySelector_script GOPAY_SDK_URL w = None"
    by (cases "querySelector_script GOPAY_SDK_URL w") auto
  then show ?thesis
  proof cases
    case loaded
    then have "useJSAPILoader_effect j opts w = (w, None)"
      by (simp add: useJSAPILoader_effect_def)
    with H R show ?thesis by simp
  next
    case skip
    then have E: "useJSAPILoader_effect j opts w = (mark_loaded j opts w, None)"
      by (simp add: useJSAPILoader_effect_def)
    from mark_loaded_inv [OF H R h] show ?thesis by (simp add: E)
  next
    case found
    note E = effect_existing [OF found]
    show ?thesis
    proof (cases "hasAttribute existing ''data-loaded''")
      case True
      with mark_loaded_inv [OF H R h] show ?thesis by (simp add: E)
    next
      case False
      let ?w' = "update_script (sid existing)
                    (\<lambda>e. e\<lparr>load_listeners := load_listeners e @ [(j, opts)]\<rparr>) w"
      have "handlers_inv i options ?w'"
        by (rule handlers_inv_map [OF elements_update_script _ H])
          (simp add: client_element_add_listener [OF h])
      moreover have "ready_inv i options c0 ?w'"
        using R by (simp add: ready_inv_def update_script_def)
      moreover have "app ?w' = app w" by (simp add: update_script_def)
      ultimately show ?thesis using False by (simp add: E)
    qed
  next
    case create
    note E = effect_create [OF create]
    let ?new = "\<lparr>sid = fresh w, src = GOPAY_SDK_URL,
                  async_attr = (case async_opt opts of None \<Rightarrow> True | Some b \<Rightarrow> b),
                  defer_attr = (case defer_opt opts of None \<Rightarrow> False | Some b \<Rightarrow> b),
                  attributes = [],
                  onload = Some (j, opts), onerror = Some (j, opts),
                  load_listeners = []\<rparr>"
    let ?w' = "w\<lparr>loaders := (loaders w)(j := (loaders w j)
                  \<lparr>isLoading := True, scriptRef := Some (fresh w)\<rparr>),
              fresh := Suc (fresh w),
              doc_head := doc_head w @ [?new]\<rparr>"
    have s: "set (elements ?w') = insert ?new (set (elements w))"
      by (simp add: elements_def scripts_def)
    have n: "client_element i options ?new"
      using h by (simp add: client_element_def)
    have "handlers_inv i options ?w'"
      using H n unfolding handlers_inv_def s by blast
    moreover have f: "isLoaded (loaders ?w' i) = isLoaded (loaders w i)"
      "loadedRef (loaders ?w' i) = loadedRef (loaders w i)" "app ?w' = app w"
      by simp_all
    have "ready_inv i options c0 ?w'"
      using R unfolding ready_inv_def f .
    moreover have "app ?w' = app w" by simp
    ultimately show ?thesis by (simp add: E)
  qed
qed

lemma fold_listeners_inv:
  assumes "\<forall>h \<in> set ls. client_handler i options h"
    and "handlers_inv i options w" and "ready_inv i options c0 w"
  shows "handlers_inv i options (fold load_listener ls w)
       \<and> ready_inv i options c0 (fold load_listener ls w)
       \<and> (isReady (app w i) \<longrightarrow> isReady (app (fold load_listener ls w) i))"
  using assms
proof (induction ls arbitrary: w)
  case Nil
  then show ?case by simp
next
  case (Cons h ls)
  obtain j opts where h: "h = (j, opts)" by (cases h)
  from Cons.prems(1) have ok: "client_handler i options (j, opts)"
    and rest: "\<forall>h \<in> set ls. client_handler i options h" by (simp_all add: h)
  let ?w = "mark_loaded j opts w"
  from mark_loaded_inv [OF Cons.prems(2,3) ok]
  have 1: "handlers_inv i options ?w" and 2: "ready_inv i options c0 ?w"
    and 3: "isReady (app w i) \<longrightarrow> isReady (app ?w i)" by blast+
  from Cons.IH [OF rest 1 2] 3 show ?case by (simp add: h)
qed

lemma find_sid_mem: "find (\<lambda>e. sid e = s) xs = Some e \<Longrightarrow> e \<in> set xs"
  by (auto dest: find_SomeD)

lemma dispatch_load_inv:
  assumes H: "handlers_inv i options w" and R: "ready_inv i options c0 w"
  shows "handlers_inv i options (dispatch_load s w)
       \<and> ready_inv i options c0 (dispatch_load s w)
       \<and> (isReady (app w i) \<longrightarrow> isReady (app (dispatch_load s w) i))"
proof (cases "find (\<lambda>e. sid e = s) (elements w)")
  case None
  with H R show ?thesis by (simp add: dispatch_load_def)
next
  case (Some e)
  let ?w1 = "case onload e of None \<Rightarrow> w | Some h \<Rightarrow> script_onload s h w"
  from Some have mem: "e \<in> set (elements w)" by (rule find_sid_mem)
  with H have ce: "client_element i options e" unfolding handlers_inv_def by blast
  then have ls: "\<forall>h \<in> set (load_listeners e). client_handler i options h"
    and ol: "\<forall>h. onload e = Some h \<longrightarrow> client_handler i options h"
    unfolding client_element_def by blast+
  have D: "dispatch_load s w = fold load_listener (load_listeners e) ?w1"
    using Some by (simp add: dispatch_load_def)
  have w1: "handlers_inv i options ?w1 \<and> ready_inv i options c0 ?w1 \<and>
      (isReady (app w i) \<longrightarrow> isReady (app ?w1 i))"
  proof (cases "onload e")
    case None
    with H R show ?thesis by simp
  next
    case (Some h)
    obtain j opts where h: "h = (j, opts)" by (cases h)
    from ol Some h have "client_handler i options (j, opts)" by blast
    from script_onload_inv [OF H R this, of s] Some h show ?thesis by simp
  qed
  from w1 fold_listeners_inv [OF ls, of ?w1 c0] show ?thesis
    unfolding D by blast
qed

lemma dispatch_error_inv:
  assumes H: "handlers_inv i options w" and R: "ready_inv i options c0 w"
  shows "handlers_inv i options (dispatch_error s err w)
       \<and> ready_inv i options c0 (dispatch_error s err w)
       \<and> (isReady (app w i) \<longrightarrow> isReady (app (dispatch_error s err w) i))"
proof (cases "find (\<lambda>e. sid e = s) (elements w)")
  case None
  with H R show ?thesis by (simp add: dispatch_error_def)
next
  case (Some e)
  from Some have mem: "e \<in> set (elements w)" by (rule find_sid_mem)
  with H have ce: "client_element i options e" unfolding handlers_inv_def by blast
  then have oe: "\<forall>h. onerror e = Some h \<longrightarrow> client_handler i options h"
    unfolding client_element_def by blast
  show ?thesis
  proof (cases "onerror e")
    case None
    with Some H R show ?thesis by (simp add: dispatch_error_def)
  next
    case h: (Some h)
    obtain j opts where jo: "h = (j, opts)" by (cases h)
    from oe h jo have ok: "client_handler i options (j, opts)" by blast
    have D: "dispatch_error s err w = script_onerror (j, opts) err w"
      using Some h jo by (simp add: dispatch_error_def del: script_onerror.simps)
    from script_onerror_inv [OF H R ok, of err] show ?thesis unfolding D .
  qed
qed

lemma cleanup_applied_inv:
  assumes H: "handlers_inv i options w" and R: "ready_inv i options c0 w"
    and C: "cleanups_inv c"
  shows "handlers_inv i options (case c j of None \<Rightarrow> w | Some f \<Rightarrow> f w)"
    and "ready_inv i options c0 (case c j of None \<Rightarrow> w | Some f \<Rightarrow> f w)"
    and "app (case c j of None \<Rightarrow> w | Some f \<Rightarrow> f w) = app w"
proof -
  from C have "c j = None \<or> c j = Some (cleanup j)" by (simp add: cleanups_inv_def)
  with H R cleanup_inv [OF H R, of j]
  show "handlers_inv i options (case c j of None \<Rightarrow> w | Some f \<Rightarrow> f w)"
    and "ready_inv i options c0 (case c j of None \<Rightarrow> w | Some f \<Rightarrow> f w)"
    and "app (case c j of None \<Rightarrow> w | Some f \<Rightarrow> f w) = app w"
    by auto
qed

lemma page_step_inv:
  assumes I: "miniapp_inv i options c0 p"
    and ev: "\<forall>opts. ev = EffectRuns i opts \<longrightarrow> opts = miniapp_loader_options options"
  shows "miniapp_inv i options c0 (page_step p ev)
       \<and> (isReady (app (fst p) i) \<longrightarrow> isReady (app (fst (page_step p ev)) i))"
proof -
  obtain w c where p: "p = (w, c)" by (cases p)
  from I have H: "handlers_inv i options w" and R: "ready_inv i options c0 w"
    and C: "cleanups_inv c"
    by (simp_all add: miniapp_inv_def p)
  show ?thesis
  proof (cases ev)
    case (EffectRuns j opts)
    let ?w = "case c j of None \<Rightarrow> w | Some f \<Rightarrow> f w"
    note W = cleanup_applied_inv [OF H R C, of j]
    from ev EffectRuns have h: "client_handler i options (j, opts)"
      by (simp add: client_handler_def)
    from effect_inv [OF W(1) W(2) h]
    have 1: "handlers_inv i options (fst (useJSAPILoader_effect j opts ?w))"
      and 2: "ready_inv i options c0 (fst (useJSAPILoader_effect j opts ?w))"
      and 3: "snd (useJSAPILoader_effect j opts ?w) = None \<or>
          snd (useJSAPILoader_effect j opts ?w) = Some (cleanup j)"
      and 4: "isReady (app ?w i) \<longrightarrow> isReady (app (fst (useJSAPILoader_effect j opts ?w)) i)"
      by blast+
    from C 3 have 5: "cleanups_inv (c(j := snd (useJSAPILoader_effect j opts ?w)))"
      by (auto simp: cleanups_inv_def)
    have S: "page_step p ev = (fst (useJSAPILoader_effect j opts ?w),
        c(j := snd (useJSAPILoader_effect j opts ?w)))"
      by (simp add: p EffectRuns split: prod.splits)
    from 1 2 4 5 W(3) show ?thesis
      unfolding S by (simp add: miniapp_inv_def p)
  next
    case (CleanupRuns j)
    note W = cleanup_applied_inv [OF H R C, of j]
    from C have 5: "cleanups_inv (c(j := None))" by (simp add: cleanups_inv_def)
    have S: "page_step p ev = ((case c j of None \<Rightarrow> w | Some f \<Rightarrow> f w), c(j := None))"
      by (simp add: p CleanupRuns)
    from W 5 show ?thesis unfolding S by (simp add: miniapp_inv_def p)
  next
    case (LoadFires s)
    with dispatch_load_inv [OF H R, of s] C show ?thesis
      by (simp add: miniapp_inv_def p)
  next
    case (ErrorFires s err)
    with dispatch_error_inv [OF H R, of s err] C show ?thesis
      by (simp add: miniapp_inv_def p)
  next
    case (WindowBecomes win)
    have "handlers_inv i options (w\<lparr>window_obj := win\<rparr>)"
      using H by (simp add: handlers_inv_def elements_def scripts_def)
    moreover have "ready_inv i options c0 (w\<lparr>window_obj := win\<rparr>)"
      using R by (simp add: ready_inv_def)
    ultimately show ?thesis using C by (simp add: miniapp_inv_def p WindowBecomes)
  qed
qed

lemma page_life_append:
  "page_life p (es @ es') = page_life (page_life p es) es'"
  by (simp add: page_life_def)

lemma page_life_inv:
  assumes "miniapp_inv i options c0 p"
    and "\<forall>opts. EffectRuns i opts \<in> set es \<longrightarrow> opts = miniapp_loader_options options"
  shows "miniapp_inv i options c0 (page_life p es)
       \<and> (isReady (app (fst p) i) \<longrightarrow> isReady (app (fst (page_life p es)) i))"
  using assms
proof (induction es arbitrary: p)
  case Nil
  then show ?case by (simp add: page_life_def)
next
  case (Cons ev es)
  let ?p = "page_step p ev"
  from Cons.prems(2)
  have e1: "\<forall>opts. ev = EffectRuns i opts \<longrightarrow> opts = miniapp_loader_options options"
    and e2: "\<forall>opts. EffectRuns i opts \<in> set es \<longrightarrow> opts = miniapp_loader_options options"
    by auto
  from page_step_inv [OF Cons.prems(1) e1]
  have 1: "miniapp_inv i options c0 ?p"
    and 2: "isReady (app (fst p) i) \<longrightarrow> isReady (app (fst ?p) i)" by blast+
  have "page_life p (ev # es) = page_life ?p es"
    by (simp add: page_life_def)
  with Cons.IH [OF 1 e2] 2 show ?case by simp
qed

lemma miniapp_inv_start:
  assumes "\<forall>e \<in> set (elements w0).
      (\<forall>h. onload e = Some h \<longrightarrow> fst h \<noteq> i) \<and>
      (\<forall>h. onerror e = Some h \<longrightarrow> fst h \<noteq> i) \<and>
      (\<forall>h \<in> set (load_listeners e). fst h \<noteq> i)"
    and "app w0 i = initial_miniapp c0"
    and "loaders w0 i = initial_loader"
    and "\<forall>j. cs j = None \<or> cs j = Some (cleanup j)"
  shows "miniapp_inv i options c0 (w0, cs)"
proof -
  from assms(1) have "handlers_inv i options w0"
    unfolding handlers_inv_def client_element_def client_handler_def by blast
  moreover have "ready_inv i options c0 w0"
    unfolding ready_inv_def
    by (simp add: assms(2,3) initial_miniapp_def initial_loader_def)
      (rule exI [of _ "[]"], simp)
  ultimately show ?thesis using assms(4) by (simp add: miniapp_inv_def cleanups_inv_def)
qed

text \<open>
  C7, as amended. Take a \<^verbatim>\<open>useMiniapp\<close> instance \<open>i\<close> at its mount: no handler of the
  instance is on a script element yet, and its cells are the initial ones. Other hook
  instances, with their own options, handlers and pending cleanups, may be on the page.
  Take any sequence \<open>es\<close> of events on the page: runs of the effect and of the cleanup of
  any instance, \<^verbatim>\<open>load\<close> and \<^verbatim>\<open>error\<close> events on any element, in the document or
  removed from it, changes of the global object; the effect of instance \<open>i\<close> runs with the
  options \<^verbatim>\<open>useMiniapp\<close> passes. After \<open>es\<close> the readiness flag is true exactly if the
  loader of the instance reports loaded; the bridge entry point does not enter into it.
  Once true, the flag is true after every further sequence \<open>es'\<close> of events: it is never
  reset. And \<^verbatim>\<open>onReady\<close> has been invoked once if the flag is true and not at all
  otherwise, so at most once, whatever \<^verbatim>\<open>onError\<close> does: the caller's state is its
  initial state \<open>c0\<close> after some invocations of \<^verbatim>\<open>onError\<close>, then one invocation of
  \<^verbatim>\<open>onReady\<close> exactly if the flag is true, then some more invocations of
  \<^verbatim>\<open>onError\<close>.
\<close>

theorem readiness_latch:
  assumes mount: "\<forall>e \<in> set (elements w0).
      (\<forall>h. onload e = Some h \<longrightarrow> fst h \<noteq> i) \<and>
      (\<forall>h. onerror e = Some h \<longrightarrow> fst h \<noteq> i) \<and>
      (\<forall>h \<in> set (load_listeners e). fst h \<noteq> i)"
    and start: "app w0 i = initial_miniapp c0"
    and fresh_instance: "loaders w0 i = initial_loader"
    and cleanups: "\<forall>j. cs j = None \<or> cs j = Some (cleanup j)"
    and client: "\<forall>opts. EffectRuns i opts \<in> set (es @ es') \<longrightarrow>
      opts = miniapp_loader_options options"
  shows "isReady (app (fst (page_life (w0, cs) es)) i) =
           isLoaded (loaders (fst (page_life (w0, cs) es)) i)
       \<and> (isReady (app (fst (page_life (w0, cs) es)) i) \<longrightarrow>
            isReady (app (fst (page_life (w0, cs) (es @ es'))) i))
       \<and> (\<exists>earlier later.
            caller (app (fst (page_life (w0, cs) es)) i) =
              (if isReady (app (fst (page_life (w0, cs) es)) i)
               then onError_applied options later
                      (onReady_applied options (onError_applied options earlier c0))
               else onError_applied options earlier c0))"
proof -
  let ?p = "page_life (w0, cs) es"
  note I0 = miniapp_inv_start [OF mount start fresh_instance cleanups, of options]
  from client
  have e1: "\<forall>opts. EffectRuns i opts \<in> set es \<longrightarrow> opts = miniapp_loader_options options"
    and e2: "\<forall>opts. EffectRuns i opts \<in> set es' \<longrightarrow> opts = miniapp_loader_options options"
    by auto
  from page_life_inv [OF I0 e1] have I: "miniapp_inv i options c0 ?p" by blast
  then have R: "ready_inv i options c0 (fst ?p)" by (simp add: miniapp_inv_def)
  from R have 1: "isReady (app (fst ?p) i) = isLoaded (loaders (fst ?p) i)"
    by (simp add: ready_inv_def)
  from page_life_inv [OF I e2]
  have 2: "isReady (app (fst ?p) i) \<longrightarrow> isReady (app (fst (page_life (w0, cs) (es @ es'))) i)"
    by (simp add: page_life_append)
  from R have 3: "\<exists>earlier later.
      caller (app (fst ?p) i) =
        (if isReady (app (fst ?p) i)
         then onError_applied options later
                (onReady_applied options (onError_applied options earlier c0))
         else onError_applied options earlier c0)"
    unfolding ready_inv_def by blast
  from 1 2 3 show ?thesis by blast
qed

theorem readiness_latch_witness:
  "isReady (app (fst (page_life
       (page_life (empty_page \<lparr>gpContainer = None\<rparr> (initial_miniapp []), \<lambda>j. None)
          [EffectRuns 1 (miniapp_loader_options recording_callbacks)])
       [EffectRuns 0 (miniapp_loader_options recording_callbacks), LoadFires 0])) 0)
   \<and> isReady (app (fst (page_life
       (page_life (empty_page \<lparr>gpContainer = None\<rparr> (initial_miniapp []), \<lambda>j. None)
          [EffectRuns 1 (miniapp_loader_options recording_callbacks)])
       ([EffectRuns 0 (miniapp_loader_options recording_callbacks), LoadFires 0] @
        [LoadFires 0]))) 0)
   \<and> caller (app (fst (page_life
       (page_life (empty_page \<lparr>gpContainer = None\<rparr> (initial_miniapp []), \<lambda>j. None)
          [EffectRuns 1 (miniapp_loader_options recording_callbacks)])
       ([EffectRuns 0 (miniapp_loader_options recording_callbacks), LoadFires 0] @
        [LoadFires 0]))) 0) = [''ready'']
   \<and> isReady (app (fst (page_life
       (empty_page \<lparr>gpContainer = None\<rparr> (initial_miniapp []), \<lambda>j. None)
       [EffectRuns 0 (miniapp_loader_options recording_callbacks),
        EffectRuns 0 (miniapp_loader_options recording_callbacks),
        ErrorFires 1 (Event ''error''), LoadFires 0])) 0)
   \<and> isReady (app (fst (page_life
       (empty_page \<lparr>gpContainer = None\<rparr> (initial_miniapp []), \<lambda>j. None)
       ([EffectRuns 0 (miniapp_loader_options recording_callbacks),
         EffectRuns 0 (miniapp_loader_options recording_callbacks),
         ErrorFires 1 (Event ''error''), LoadFires 0] @
        [EffectRuns 0 (miniapp_loader_options recording_callbacks), LoadFires 0,
         ErrorFires 1 (Event ''error'')]))) 0)
   \<and> caller (app (fst (page_life
       (empty_page \<lparr>gpContainer = None\<rparr> (initial_miniapp []), \<lambda>j. None)
       ([EffectRuns 0 (miniapp_loader_options recording_callbacks),
         EffectRuns 0 (miniapp_loader_options recording_callbacks),
         ErrorFires 1 (Event ''error''), LoadFires 0] @
        [EffectRuns 0 (miniapp_loader_options recording_callbacks), LoadFires 0,
         ErrorFires 1 (Event ''error'')]))) 0) = [''error'', ''ready'', ''error'']"
proof -
  let ?o = "miniapp_loader_options recording_callbacks"
  let ?e = "empty_page \<lparr>gpContainer = None\<rparr> (initial_miniapp ([]::string list))"
  let ?pA = "page_life (?e, \<lambda>j. None) [EffectRuns 1 ?o]"
  let ?esA = "[EffectRuns 0 ?o, LoadFires 0]"
  let ?esA' = "[LoadFires 0] :: string list miniapp page_event list"
  let ?esB = "[EffectRuns 0 ?o, EffectRuns 0 ?o, ErrorFires 1 (Event ''error''), LoadFires 0]"
  let ?esB' = "[EffectRuns 0 ?o, LoadFires 0, ErrorFires 1 (Event ''error'')]"
  have mountA: "\<forall>e \<in> set (elements (fst ?pA)).
      (\<forall>h. onload e = Some h \<longrightarrow> fst h \<noteq> 0) \<and>
      (\<forall>h. onerror e = Some h \<longrightarrow> fst h \<noteq> 0) \<and>
      (\<forall>h \<in> set (load_listeners e). fst h \<noteq> 0)"
    by (simp add: page_eval)
  have startA: "app (fst ?pA) 0 = initial_miniapp []"
    and freshA: "loaders (fst ?pA) 0 = initial_loader"
    by (simp_all add: page_eval)
  have cleanupsA: "\<forall>j. snd ?pA j = None \<or> snd ?pA j = Some (cleanup j)"
    by (simp add: page_eval)
  have clientA: "\<forall>opts. EffectRuns 0 opts \<in> set (?esA @ ?esA') \<longrightarrow> opts = ?o"
    by simp
  have mountB: "\<forall>e \<in> set (elements ?e).
      (\<forall>h. onload e = Some h \<longrightarrow> fst h \<noteq> 0) \<and>
      (\<forall>h. onerror e = Some h \<longrightarrow> fst h \<noteq> 0) \<and>
      (\<forall>h \<in> set (load_listeners e). fst h \<noteq> 0)"
    by (simp add: page_eval)
  have startB: "app ?e 0 = initial_miniapp []"
    and freshB: "loaders ?e 0 = initial_loader"
    by (simp_all add: page_eval)
  have cleanupsB: "\<forall>j. (\<lambda>j. None) j = None \<or>
      (\<lambda>j. None :: (string list miniapp world \<Rightarrow> string list miniapp world) option) j =
        Some (cleanup j)"
    by simp
  have clientB: "\<forall>opts. EffectRuns 0 opts \<in> set (?esB @ ?esB') \<longrightarrow> opts = ?o"
    by auto
  have readyA: "isReady (app (fst (page_life ?pA ?esA)) 0)"
    by (simp add: page_eval recording_callbacks_def)
  have readyB: "isReady (app (fst (page_life (?e, \<lambda>j. None) ?esB)) 0)"
    by (simp add: page_eval recording_callbacks_def)
  have callerA: "caller (app (fst (page_life ?pA (?esA @ ?esA'))) 0) = [''ready'']"
    by (simp add: page_eval recording_callbacks_def)
  have callerB: "caller (app (fst (page_life (?e, \<lambda>j. None) (?esB @ ?esB'))) 0) =
      [''error'', ''ready'', ''error'']"
    by (simp add: page_eval recording_callbacks_def)
  from readiness_latch [OF mountA startA freshA cleanupsA clientA] readyA
  have laterA: "isReady (app (fst (page_life ?pA (?esA @ ?esA'))) 0)"
    by simp
  from readiness_latch [OF mountB startB freshB cleanupsB clientB] readyB
  have laterB: "isReady (app (fst (page_life (?e, \<lambda>j. None) (?esB @ ?esB'))) 0)"
    by blast
  from readyA laterA callerA readyB laterB callerB show ?thesis by blast
qed

text \<open>
  C7 as stated fails where it ties the flag to the bridge entry point. On a page without
  \<^verbatim>\<open>window.gpContainer\<close> the effect creates script element 0; when its \<^verbatim>\<open>load\<close>
  event fires, \<^verbatim>\<open>onLoad\<close> sets the readiness flag, and nothing looks at the global
  object: the flag is true and the entry point is absent.
\<close>

theorem ready_without_entry_point:
  "isReady (app (fst (page_life
       (empty_page \<lparr>gpContainer = None\<rparr> (initial_miniapp ()), \<lambda>i. None)
       [EffectRuns 0 (miniapp_loader_options
          \<lparr>onReady = None, onError_miniapp = None, defaultTimeout = None\<rparr>),
        LoadFires 0])) 0)
   \<and> gpContainer (window_obj (fst (page_life
       (empty_page \<lparr>gpContainer = None\<rparr> (initial_miniapp ()), \<lambda>i. None)
       [EffectRuns 0 (miniapp_loader_options
          \<lparr>onReady = None, onError_miniapp = None, defaultTimeout = None\<rparr>),
        LoadFires 0]))) = None"
  by (simp add: page_eval)

lemma useMiniapp_call:
  "result_call (useMiniapp i options w) win =
     call (case defaultTimeout options of None \<Rightarrow> 300000 | Some t \<Rightarrow> t) win"
  "result_callWithCallbacks (useMiniapp i options w) win =
     callWithCallbacks (case defaultTimeout options of None \<Rightarrow> 300000 | Some t \<Rightarrow> t) win"
  by (simp_all add: useMiniapp_def Let_def)

text \<open>
  C10. The \<^verbatim>\<open>call\<close> and \<^verbatim>\<open>callWithCallbacks\<close> that \<^verbatim>\<open>useMiniapp\<close> returns are the
  same functions whatever the state of the hook (\<open>w\<close> or \<open>w'\<close>), so whatever
  \<^verbatim>\<open>isReady\<close> is. Invoked while \<^verbatim>\<open>window.gpContainer\<close> is present, they invoke the
  bridge primitive once with the arguments given (and \<^verbatim>\<open>{}\<close> and the default timeout for
  those left out); invoked while it is absent, they report \<^verbatim>\<open>SDK_NOT_LOADED\<close> and
  invoke nothing.
\<close>

theorem guard_reads_entry_point_only:
  "(gpContainer win \<noteq> None \<longrightarrow>
      dispatched (result_call (useMiniapp i options w) win c m p t) =
        [(c, m, case p of None \<Rightarrow> [] | Some x \<Rightarrow> x,
          case t of None \<Rightarrow> (case defaultTimeout options of None \<Rightarrow> 300000 | Some d \<Rightarrow> d)
                  | Some x \<Rightarrow> x)]
    \<and> dispatched (result_callWithCallbacks (useMiniapp i options w) win c m p t) =
        [(c, m, case p of None \<Rightarrow> [] | Some x \<Rightarrow> x,
          case t of None \<Rightarrow> (case defaultTimeout options of None \<Rightarrow> 300000 | Some d \<Rightarrow> d)
                  | Some x \<Rightarrow> x)])
   \<and> (gpContainer win = None \<longrightarrow>
      result_call (useMiniapp i options w) win c m p t =
        \<lparr>dispatched = [], immediate = [Reject sdk_not_loaded], deferred = []\<rparr>
    \<and> result_callWithCallbacks (useMiniapp i options w) win c m p t =
        \<lparr>dispatched = [], immediate = [FailureCallback sdk_not_loaded], deferred = []\<rparr>)
   \<and> result_call (useMiniapp i options w) = result_call (useMiniapp i options w')
   \<and> result_callWithCallbacks (useMiniapp i options w) =
       result_callWithCallbacks (useMiniapp i options w')"
proof -
  have same: "result_call (useMiniapp i options w) = result_call (useMiniapp i options w')"
    "result_callWithCallbacks (useMiniapp i options w) =
       result_callWithCallbacks (useMiniapp i options w')"
    by (simp_all add: useMiniapp_def Let_def)
  have present: "gpContainer win \<noteq> None \<longrightarrow>
      dispatched (result_call (useMiniapp i options w) win c m p t) =
        [(c, m, case p of None \<Rightarrow> [] | Some x \<Rightarrow> x,
          case t of None \<Rightarrow> (case defaultTimeout options of None \<Rightarrow> 300000 | Some d \<Rightarrow> d)
                  | Some x \<Rightarrow> x)]
    \<and> dispatched (result_callWithCallbacks (useMiniapp i options w) win c m p t) =
        [(c, m, case p of None \<Rightarrow> [] | Some x \<Rightarrow> x,
          case t of None \<Rightarrow> (case defaultTimeout options of None \<Rightarrow> 300000 | Some d \<Rightarrow> d)
                  | Some x \<Rightarrow> x)]"
    by (auto simp: useMiniapp_call call_def callWithCallbacks_def Let_def)
  have absent: "gpContainer win = None \<longrightarrow>
      result_call (useMiniapp i options w) win c m p t =
        \<lparr>dispatched = [], immediate = [Reject sdk_not_loaded], deferred = []\<rparr>
    \<and> result_callWithCallbacks (useMiniapp i options w) win c m p t =
        \<lparr>dispatched = [], immediate = [FailureCallback sdk_not_loaded], deferred = []\<rparr>"
    by (simp add: useMiniapp_call call_def callWithCallbacks_def Let_def)
  from present absent same show ?thesis by blast
qed

theorem guard_reads_entry_point_only_witness:
  "result_isReady (useMiniapp 0
       \<lparr>onReady = None, onError_miniapp = None, defaultTimeout = None\<rparr>
       (empty_page \<lparr>gpContainer = Some (\<lambda>c m p t. \<lparr>during = [], thrown = None, afterwards = []\<rparr>)\<rparr>
          (initial_miniapp ()))) = False
   \<and> dispatched (result_call (useMiniapp 0
       \<lparr>onReady = None, onError_miniapp = None, defaultTimeout = None\<rparr>
       (empty_page \<lparr>gpContainer = Some (\<lambda>c m p t. \<lparr>during = [], thrown = None, afterwards = []\<rparr>)\<rparr>
          (initial_miniapp ())))
       \<lparr>gpContainer = Some (\<lambda>c m p t. \<lparr>during = [], thrown = None, afterwards = []\<rparr>)\<rparr>
       ''GPSystem'' ''getLocale'' None None) = [(''GPSystem'', ''getLocale'', [], 300000)]
   \<and> result_isReady (useMiniapp 0
       \<lparr>onReady = None, onError_miniapp = None, defaultTimeout = None\<rparr>
       (fst (page_life (empty_page \<lparr>gpContainer = None\<rparr> (initial_miniapp ()), \<lambda>j. None)
          [EffectRuns 0 (miniapp_loader_options
             \<lparr>onReady = None, onError_miniapp = None, defaultTimeout = None\<rparr>),
           LoadFires 0]))) = True
   \<and> result_call (useMiniapp 0
       \<lparr>onReady = None, onError_miniapp = None, defaultTimeout = None\<rparr>
       (fst (page_life (empty_page \<lparr>gpContainer = None\<rparr> (initial_miniapp ()), \<lambda>j. None)
          [EffectRuns 0 (miniapp_loader_options
             \<lparr>onReady = None, onError_miniapp = None, defaultTimeout = None\<rparr>),
           LoadFires 0])))
       \<lparr>gpContainer = None\<rparr> ''GPSystem'' ''getLocale'' None None =
     \<lparr>dispatched = [], immediate = [Reject sdk_not_loaded], deferred = []\<rparr>"
proof -
  let ?o = "\<lparr>onReady = None, onError_miniapp = None, defaultTimeout = None\<rparr>
      :: unit GopayMiniappOptions"
  let ?gp = "\<lambda>(c::string) (m::string) (p::jsobj) (t::int).
      \<lparr>during = [], thrown = None, afterwards = []\<rparr>"
  let ?A = "empty_page \<lparr>gpContainer = Some ?gp\<rparr> (initial_miniapp ())"
  let ?B = "fst (page_life (empty_page \<lparr>gpContainer = None\<rparr> (initial_miniapp ()), \<lambda>j. None)
          [EffectRuns 0 (miniapp_loader_options ?o), LoadFires 0])"
  have rA: "result_isReady (useMiniapp 0 ?o ?A) = False"
    by (simp add: useMiniapp_def empty_page_def initial_miniapp_def)
  have rB: "result_isReady (useMiniapp 0 ?o ?B) = True"
    by (simp add: useMiniapp_def page_eval)
  have pA: "gpContainer \<lparr>gpContainer = Some ?gp\<rparr> \<noteq> None" by simp
  have aB: "gpContainer \<lparr>gpContainer = None\<rparr> = None" by simp
  from guard_reads_entry_point_only [of "\<lparr>gpContainer = Some ?gp\<rparr>" 0 ?o ?A
      "''GPSystem''" "''getLocale''" None None] pA
  have 1: "dispatched (result_call (useMiniapp 0 ?o ?A) \<lparr>gpContainer = Some ?gp\<rparr>
       ''GPSystem'' ''getLocale'' None None) = [(''GPSystem'', ''getLocale'', [], 300000)]"
    by simp
  from guard_reads_entry_point_only [of "\<lparr>gpContainer = None\<rparr>" 0 ?o ?B
      "''GPSystem''" "''getLocale''" None None] aB
  have 2: "result_call (useMiniapp 0 ?o ?B) \<lparr>gpContainer = None\<rparr>
       ''GPSystem'' ''getLocale'' None None =
     \<lparr>dispatched = [], immediate = [Reject sdk_not_loaded], deferred = []\<rparr>"
    by blast
  from rA 1 rB 2 show ?thesis by blast
qed

end
